theory Spec2Isabelle
  imports Complex_Main
begin

chapter \<open>A map of neurodiversity profiles: the geometry and the interaction of the widget\<close>

text \<open>
  The widget loads a table of nodes (profiles with a position in the plane, a cluster label
  and trait scores) and a table of weighted edges, draws them on a canvas and lets the
  user pick a node by a click.  This theory embeds the functions of
  \<^verbatim>\<open>src/neurodiversity.tsx\<close> that compute what is drawn and picked: the colormap
  \<^verbatim>\<open>viridis\<close>, the ellipse fit \<^verbatim>\<open>eig2x2\<close> and \<^verbatim>\<open>covEllipse\<close>, the normalisation of the
  two tables, the memoised values \<^verbatim>\<open>extent\<close>, \<^verbatim>\<open>ellipses\<close>, \<^verbatim>\<open>nodeById\<close> and \<^verbatim>\<open>edgeSegments\<close>,
  the coordinate mapping \<^verbatim>\<open>sx\<close> and \<^verbatim>\<open>sy\<close>, and the click handler \<^verbatim>\<open>handleCanvasClick\<close>.
  Numbers are binary64 floating-point numbers: every arithmetic operation rounds.  The
  definitions come first, the properties after them.
\<close>

section \<open>JavaScript numbers\<close>

text \<open>
  The widget computes with JavaScript numbers, the binary64 floating-point numbers.  A
  number is modelled as a real value or one of the three special values \<^verbatim>\<open>NaN\<close>,
  \<^verbatim>\<open>+Infinity\<close>, \<^verbatim>\<open>-Infinity\<close>.  An operation on finite values takes the exact result and
  rounds it to the nearest binary64 number, ties to the even significand; a result whose
  rounding reaches \<open>2\<^sup>1\<^sup>0\<^sup>2\<^sup>4\<close> overflows to an infinity.  The sign of zero is not modelled (a
  division by a zero is by +0).
\<close>

datatype num = Fin real | PInf | NInf | NaN

subsection \<open>Rounding to binary64\<close>

text \<open>The binary exponent of a positive real \<open>x\<close>: the integer \<open>k\<close> with
  \<open>2\<^sup>k \<le> x < 2\<^sup>k\<^sup>+\<^sup>1\<close>.\<close>

function bexp :: "real \<Rightarrow> int" where
  "bexp x = (if 2 \<le> x then bexp (x / 2) + 1 else if 0 < x \<and> x < 1 then bexp (2 * x) - 1 else 0)"
  by pat_completeness auto
termination
proof (relation "measure (\<lambda>x. if 1 \<le> x then nat \<lfloor>log 2 x\<rfloor> else nat \<lceil>- log 2 x\<rceil>)", goal_cases)
  case 1
  show ?case by simp
next
  case (2 x)
  then have "log 2 (x / 2) = log 2 x - 1" "1 \<le> log 2 x"
    by (simp_all add: log_divide le_log_iff)
  then have "\<lfloor>log 2 (x / 2)\<rfloor> = \<lfloor>log 2 x\<rfloor> - 1" "1 \<le> \<lfloor>log 2 x\<rfloor>"
    by (simp_all add: le_floor_iff)
  with 2 show ?case by simp
next
  case (3 x)
  then have x: "0 < x" "x < 1" by simp_all
  then have l: "log 2 (2 * x) = log 2 x + 1" "log 2 x < 0"
    by (simp_all add: log_mult)
  show ?case
  proof (cases "1 \<le> 2 * x")
    case True
    with x have "0 \<le> log 2 (2 * x)" "log 2 (2 * x) < 1"
      by (simp_all add: le_log_iff log_less_iff)
    then have "\<lfloor>log 2 (2 * x)\<rfloor> = 0" by linarith
    moreover from l have "0 < \<lceil>- log 2 x\<rceil>" by linarith
    ultimately show ?thesis using x True by simp
  next
    case False
    from l have "- log 2 (2 * x) = - log 2 x - 1" by simp
    then have "\<lceil>- log 2 (2 * x)\<rceil> = \<lceil>- log 2 x\<rceil> - 1" by simp
    moreover from l have "0 < \<lceil>- log 2 x\<rceil>" by linarith
    ultimately have "\<lceil>- log 2 (2 * x)\<rceil> = \<lceil>- log 2 x\<rceil> - 1" "0 < \<lceil>- log 2 x\<rceil>" by simp_all
    then show ?thesis using x False by simp
  qed
qed

declare bexp.simps [simp del]

text \<open>Rounding a real to the nearest integer, ties to the even one.\<close>

definition rne :: "real \<Rightarrow> int" where
  "rne z = (let f = \<lfloor>z\<rfloor>; r = z - of_int f in
            if r < 1 / 2 then f else if 1 / 2 < r then f + 1 else if even f then f else f + 1)"

text \<open>The exponent of the unit in the last place at \<open>x\<close>: 53 significant bits, and the
  exponent of the subnormal numbers at the lower end.\<close>

definition ulp_exp :: "real \<Rightarrow> int" where
  "ulp_exp x = max (bexp \<bar>x\<bar> - 52) (- 1074)"

text \<open>The multiple of that unit nearest to \<open>x\<close>, and the number it is as a result.\<close>

definition round64 :: "real \<Rightarrow> real" where
  "round64 x = of_int (rne (x / 2 powi ulp_exp x)) * 2 powi ulp_exp x"

definition rnd :: "real \<Rightarrow> num" where
  "rnd x = (let y = round64 x in
            if 2 powi 1024 \<le> \<bar>y\<bar> then (if 0 < y then PInf else NInf) else Fin y)"

subsection \<open>Arithmetic\<close>

instantiation num :: "{plus, minus, uminus, times, inverse, ord}"
begin

fun plus_num :: "num \<Rightarrow> num \<Rightarrow> num" where
  "plus_num NaN _ = NaN"
| "plus_num _ NaN = NaN"
| "plus_num (Fin a) (Fin b) = rnd (a + b)"
| "plus_num PInf NInf = NaN"
| "plus_num NInf PInf = NaN"
| "plus_num PInf _ = PInf"
| "plus_num _ PInf = PInf"
| "plus_num NInf _ = NInf"
| "plus_num _ NInf = NInf"

fun uminus_num :: "num \<Rightarrow> num" where
  "uminus_num (Fin a) = Fin (- a)"
| "uminus_num PInf = NInf"
| "uminus_num NInf = PInf"
| "uminus_num NaN = NaN"

definition minus_num :: "num \<Rightarrow> num \<Rightarrow> num" where
  "minus_num a b = a + (- b)"

fun times_num :: "num \<Rightarrow> num \<Rightarrow> num" where
  "times_num NaN _ = NaN"
| "times_num _ NaN = NaN"
| "times_num (Fin a) (Fin b) = rnd (a * b)"
| "times_num PInf (Fin b) = (if b = 0 then NaN else if 0 < b then PInf else NInf)"
| "times_num NInf (Fin b) = (if b = 0 then NaN else if 0 < b then NInf else PInf)"
| "times_num (Fin a) PInf = (if a = 0 then NaN else if 0 < a then PInf else NInf)"
| "times_num (Fin a) NInf = (if a = 0 then NaN else if 0 < a then NInf else PInf)"
| "times_num PInf PInf = PInf"
| "times_num NInf NInf = PInf"
| "times_num PInf NInf = NInf"
| "times_num NInf PInf = NInf"

fun divide_num :: "num \<Rightarrow> num \<Rightarrow> num" where
  "divide_num NaN _ = NaN"
| "divide_num _ NaN = NaN"
| "divide_num (Fin a) (Fin b) =
     (if b = 0 then (if a = 0 then NaN else if 0 < a then PInf else NInf)
      else rnd (a / b))"
| "divide_num (Fin a) _ = Fin 0"
| "divide_num PInf (Fin b) = (if 0 \<le> b then PInf else NInf)"
| "divide_num NInf (Fin b) = (if 0 \<le> b then NInf else PInf)"
| "divide_num _ _ = NaN"

definition inverse_num :: "num \<Rightarrow> num" where
  "inverse_num a = divide (Fin 1) a"

fun less_num :: "num \<Rightarrow> num \<Rightarrow> bool" where
  "less_num (Fin a) (Fin b) = (a < b)"
| "less_num (Fin a) PInf = True"
| "less_num NInf (Fin b) = True"
| "less_num NInf PInf = True"
| "less_num _ _ = False"

definition less_eq_num :: "num \<Rightarrow> num \<Rightarrow> bool" where
  "less_eq_num a b = (a < b \<or> (a = b \<and> a \<noteq> NaN))"

instance ..

end

text \<open>Truthiness of a number, and the operator \<^verbatim>\<open>a || b\<close> on numbers.\<close>

fun truthy :: "num \<Rightarrow> bool" where
  "truthy (Fin a) = (a \<noteq> 0)"
| "truthy NaN = False"
| "truthy _ = True"

definition lor :: "num \<Rightarrow> num \<Rightarrow> num" where
  "lor a b = (if truthy a then a else b)"

fun Number_isFinite :: "num \<Rightarrow> bool" where
  "Number_isFinite (Fin a) = True"
| "Number_isFinite _ = False"

subsection \<open>The functions of \<^verbatim>\<open>Math\<close> the widget calls\<close>

text \<open>\<^verbatim>\<open>Math.sqrt\<close>, \<^verbatim>\<open>Math.hypot\<close> and \<^verbatim>\<open>Math.atan2\<close> return the exact value rounded to
  binary64; \<^verbatim>\<open>Math.max\<close>, \<^verbatim>\<open>Math.min\<close>, \<^verbatim>\<open>Math.abs\<close> and \<^verbatim>\<open>Math.round\<close> are exact.\<close>

fun Math_max :: "num \<Rightarrow> num \<Rightarrow> num" where
  "Math_max NaN _ = NaN"
| "Math_max _ NaN = NaN"
| "Math_max a b = (if a < b then b else a)"

fun Math_min :: "num \<Rightarrow> num \<Rightarrow> num" where
  "Math_min NaN _ = NaN"
| "Math_min _ NaN = NaN"
| "Math_min a b = (if b < a then b else a)"

text \<open>\<^verbatim>\<open>Math.max(...xs)\<close> and \<^verbatim>\<open>Math.min(...xs)\<close>: the empty spread gives
  \<^verbatim>\<open>-Infinity\<close> and \<^verbatim>\<open>+Infinity\<close>.\<close>

definition Math_max_of :: "num list \<Rightarrow> num" where
  "Math_max_of xs = foldl Math_max NInf xs"

definition Math_min_of :: "num list \<Rightarrow> num" where
  "Math_min_of xs = foldl Math_min PInf xs"

fun Math_sqrt :: "num \<Rightarrow> num" where
  "Math_sqrt (Fin a) = (if a < 0 then NaN else rnd (sqrt a))"
| "Math_sqrt PInf = PInf"
| "Math_sqrt _ = NaN"

fun Math_abs :: "num \<Rightarrow> num" where
  "Math_abs (Fin a) = Fin \<bar>a\<bar>"
| "Math_abs NaN = NaN"
| "Math_abs _ = PInf"

fun Math_hypot :: "num \<Rightarrow> num \<Rightarrow> num" where
  "Math_hypot (Fin a) (Fin b) = rnd (sqrt (a * a + b * b))"
| "Math_hypot PInf _ = PInf"
| "Math_hypot NInf _ = PInf"
| "Math_hypot _ PInf = PInf"
| "Math_hypot _ NInf = PInf"
| "Math_hypot _ _ = NaN"


text \<open>The angle of the point \<open>(x, y)\<close>, in \<open>(-pi, pi]\<close>, on real arguments.\<close>

definition atan2 :: "real \<Rightarrow> real \<Rightarrow> real" where
  "atan2 y x =
     (if 0 < x then arctan (y / x)
      else if x < 0 then (if 0 \<le> y then arctan (y / x) + pi else arctan (y / x) - pi)
      else if 0 < y then pi / 2
      else if y < 0 then - (pi / 2)
      else 0)"

fun Math_atan2 :: "num \<Rightarrow> num \<Rightarrow> num" where
  "Math_atan2 NaN _ = NaN"
| "Math_atan2 _ NaN = NaN"
| "Math_atan2 (Fin y) (Fin x) = rnd (atan2 y x)"
| "Math_atan2 (Fin y) PInf = Fin 0"
| "Math_atan2 (Fin y) NInf = (if 0 \<le> y then rnd pi else rnd (- pi))"
| "Math_atan2 PInf (Fin x) = rnd (pi / 2)"
| "Math_atan2 NInf (Fin x) = rnd (- (pi / 2))"
| "Math_atan2 PInf PInf = rnd (pi / 4)"
| "Math_atan2 PInf NInf = rnd (3 * pi / 4)"
| "Math_atan2 NInf PInf = rnd (- (pi / 4))"
| "Math_atan2 NInf NInf = rnd (- (3 * pi / 4))"


section \<open>Colormap\<close>


definition hexval :: "char \<Rightarrow> nat option" where
  "hexval c =
     (let n = (of_char c :: nat) in
      if 48 \<le> n \<and> n \<le> 57 then Some (n - 48)
      else if 97 \<le> n \<and> n \<le> 102 then Some (n - 87)
      else if 65 \<le> n \<and> n \<le> 70 then Some (n - 55)
      else None)"

definition is_space :: "char \<Rightarrow> bool" where
  "is_space c = (let n = (of_char c :: nat) in (9 \<le> n \<and> n \<le> 13) \<or> n = 32)"




text \<open>The stops of the colormap; a decimal literal is the binary64 number nearest to it.\<close>

definition stops :: "(num \<times> string) list" where
  "stops =
    [(Fin 0.0,   ''#31083E''),
     (rnd 0.111, ''#3D0A89''),
     (rnd 0.222, ''#532496''),
     (rnd 0.333, ''#6A3FA3''),
     (rnd 0.444, ''#815AB0''),
     (rnd 0.555, ''#9775BE''),
     (rnd 0.666, ''#AD90CB''),
     (rnd 0.777, ''#C3ABD8''),
     (rnd 0.888, ''#D8C5E4''),
     (Fin 1.0,   ''#ECE0F0'')]"




text \<open>\<^verbatim>\<open>viridis(t)\<close> prints the channels into \<^verbatim>\<open>rgb(r,g,b)\<close>.  How a finite number prints is
  the language's \<^verbatim>\<open>Number::toString\<close>, a parameter of the model.\<close>

fun num_to_string :: "(real \<Rightarrow> string) \<Rightarrow> num \<Rightarrow> string" where
  "num_to_string pr (Fin a) = pr a"
| "num_to_string pr PInf = ''Infinity''"
| "num_to_string pr NInf = ''-Infinity''"
| "num_to_string pr NaN = ''NaN''"


section \<open>JavaScript values and conversions\<close>

text \<open>
  A cell of a parsed table row is a primitive value.  (The CSV parser the widget uses
  returns numbers, booleans, strings and \<^verbatim>\<open>null\<close>; a column the row lacks reads as
  \<^verbatim>\<open>undefined\<close>.)
\<close>

datatype jsval = JUndefined | JNull | JBool bool | JNum num | JStr string

text \<open>A row of a parsed table: the value of each column name.\<close>

type_synonym row = "string \<Rightarrow> jsval"

fun nullish :: "jsval \<Rightarrow> bool" where
  "nullish JUndefined = True"
| "nullish JNull = True"
| "nullish _ = False"

text \<open>\<^verbatim>\<open>a ?? b\<close>, and a chain \<^verbatim>\<open>a ?? b ?? ... ?? z\<close>: the first operand that is neither \<^verbatim>\<open>null\<close> nor
  \<^verbatim>\<open>undefined\<close>, else the last operand.\<close>

definition qq :: "jsval \<Rightarrow> jsval \<Rightarrow> jsval" where
  "qq a b = (if nullish a then b else a)"

fun coalesce :: "jsval list \<Rightarrow> jsval" where
  "coalesce [] = JUndefined"
| "coalesce [v] = v"
| "coalesce (v # vs) = qq v (coalesce vs)"

text \<open>\<^verbatim>\<open>String(v)\<close>.\<close>

fun ToString :: "(real \<Rightarrow> string) \<Rightarrow> jsval \<Rightarrow> string" where
  "ToString pr JUndefined = ''undefined''"
| "ToString pr JNull = ''null''"
| "ToString pr (JBool b) = (if b then ''true'' else ''false'')"
| "ToString pr (JNum n) = num_to_string pr n"
| "ToString pr (JStr s) = s"

text \<open>\<^verbatim>\<open>s.trim()\<close> and \<^verbatim>\<open>s.toLowerCase()\<close>, on ASCII.\<close>

definition trim :: "string \<Rightarrow> string" where
  "trim s = rev (dropWhile is_space (rev (dropWhile is_space s)))"

definition lower_char :: "char \<Rightarrow> char" where
  "lower_char c =
     (case map_of (zip ''ABCDEFGHIJKLMNOPQRSTUVWXYZ'' ''abcdefghijklmnopqrstuvwxyz'') c of
        Some l \<Rightarrow> l
      | None \<Rightarrow> c)"

definition toLowerCase :: "string \<Rightarrow> string" where
  "toLowerCase s = map lower_char s"

subsection \<open>Strings to numbers\<close>

text \<open>
  \<^verbatim>\<open>Number(s)\<close> on a string: the string is trimmed; the empty string is 0; a decimal literal
  (optional sign, digits with an optional fraction, optional exponent), \<^verbatim>\<open>Infinity\<close> with an
  optional sign, or an unsigned hexadecimal, octal or binary literal gives its value;
  everything else is \<^verbatim>\<open>NaN\<close>.  The value is rounded to binary64.
\<close>

definition is_digit :: "char \<Rightarrow> bool" where
  "is_digit c = (let n = (of_char c :: nat) in 48 \<le> n \<and> n \<le> 57)"

definition digits_val :: "nat \<Rightarrow> string \<Rightarrow> nat" where
  "digits_val base s = foldl (\<lambda>acc c. base * acc + the (hexval c)) 0 s"

definition all_digits :: "nat \<Rightarrow> string \<Rightarrow> bool" where
  "all_digits base s =
     (s \<noteq> [] \<and> list_all (\<lambda>c. case hexval c of None \<Rightarrow> False | Some d \<Rightarrow> d < base) s)"

text \<open>The exponent part: absent (exponent 0), or \<^verbatim>\<open>e\<close> with an optional sign and digits.\<close>

definition parse_exponent :: "string \<Rightarrow> int option" where
  "parse_exponent s =
     (if s = [] then Some 0
      else if hd s = CHR ''e'' \<or> hd s = CHR ''E'' then
        (let r = tl s;
             neg = (take 1 r = ''-'');
             ds = (if take 1 r = ''-'' \<or> take 1 r = ''+'' then drop 1 r else r)
         in if all_digits 10 ds
            then Some (if neg then - int (digits_val 10 ds) else int (digits_val 10 ds))
            else None)
      else None)"

definition scale10 :: "real \<Rightarrow> int \<Rightarrow> real" where
  "scale10 m e = (if 0 \<le> e then m * 10 ^ nat e else m / 10 ^ nat (- e))"

definition parse_unsigned_decimal :: "string \<Rightarrow> real option" where
  "parse_unsigned_decimal s =
     (let ip = takeWhile is_digit s;
          r1 = dropWhile is_digit s;
          dot = (take 1 r1 = ''.'');
          fp = (if dot then takeWhile is_digit (drop 1 r1) else []);
          r2 = (if dot then dropWhile is_digit (drop 1 r1) else r1)
      in if ip = [] \<and> fp = [] then None
         else (case parse_exponent r2 of
                 None \<Rightarrow> None
               | Some e \<Rightarrow>
                   Some (scale10 (real (digits_val 10 ip)
                                   + real (digits_val 10 fp) / 10 ^ length fp) e)))"

definition parse_decimal :: "string \<Rightarrow> num" where
  "parse_decimal s =
     (let neg = (take 1 s = ''-'');
          u = (if take 1 s = ''-'' \<or> take 1 s = ''+'' then drop 1 s else s)
      in if u = ''Infinity'' then (if neg then NInf else PInf)
         else (case parse_unsigned_decimal u of
                 None \<Rightarrow> NaN
               | Some v \<Rightarrow> rnd (if neg then - v else v)))"

definition StringToNumber :: "string \<Rightarrow> num" where
  "StringToNumber s =
     (let t = trim s; p = take 2 t; ds = drop 2 t
      in if t = [] then Fin 0
         else if p = ''0x'' \<or> p = ''0X'' then
           (if all_digits 16 ds then rnd (real (digits_val 16 ds)) else NaN)
         else if p = ''0o'' \<or> p = ''0O'' then
           (if all_digits 8 ds then rnd (real (digits_val 8 ds)) else NaN)
         else if p = ''0b'' \<or> p = ''0B'' then
           (if all_digits 2 ds then rnd (real (digits_val 2 ds)) else NaN)
         else parse_decimal t)"

text \<open>\<^verbatim>\<open>Number(v)\<close>.\<close>

fun ToNumber :: "jsval \<Rightarrow> num" where
  "ToNumber JUndefined = NaN"
| "ToNumber JNull = Fin 0"
| "ToNumber (JBool b) = (if b then Fin 1 else Fin 0)"
| "ToNumber (JNum n) = n"
| "ToNumber (JStr s) = StringToNumber s"

text \<open>How an integer prints (\<^verbatim>\<open>Number::toString\<close> on the integers below \<open>10\<^sup>2\<^sup>1\<close>); the
  examples below take it for the printing parameter.\<close>

function nat_digits :: "nat \<Rightarrow> string" where
  "nat_digits n =
     (if n < 10 then [''0123456789'' ! n]
      else nat_digits (n div 10) @ [''0123456789'' ! (n mod 10)])"
  by pat_completeness auto
termination
  by (relation "measure (\<lambda>n. n)") auto

definition print_integer :: "real \<Rightarrow> string" where
  "print_integer a =
     (if \<lfloor>a\<rfloor> < 0 then ''-'' else []) @ nat_digits (nat \<bar>\<lfloor>a\<rfloor>\<bar>)"

section \<open>Loading: normalised nodes and edges\<close>

text \<open>
  A normalised node keeps the columns of its row (\<^verbatim>\<open>...r\<close>) and sets \<^verbatim>\<open>id\<close>, \<^verbatim>\<open>x_KPCA\<close>, \<^verbatim>\<open>y_KPCA\<close>
  and \<^verbatim>\<open>cluster\<close>.  The widget's node list is only ever set to the result of the
  normalisation, so the later \<^verbatim>\<open>String(n.id)\<close> and \<^verbatim>\<open>Number(n.x_KPCA)\<close> return the field.
\<close>

record node =
  node_id :: string
  x_KPCA :: num
  y_KPCA :: num
  cluster :: jsval
  columns :: row

definition nNorm_row :: "(real \<Rightarrow> string) \<Rightarrow> row \<Rightarrow> node" where
  "nNorm_row pr r =
     (let id = trim (ToString pr (coalesce [r ''id'', r ''ID'', r ''user_id'', r ''UserID'', JStr '''']));
          x = ToNumber (coalesce [r ''x_KPCA'', r ''kpca_x'', r ''KPCA_X'', r ''X'', r ''x'', r ''KPCA1'']);
          y = ToNumber (coalesce [r ''y_KPCA'', r ''kpca_y'', r ''KPCA_Y'', r ''Y'', r ''y'', r ''KPCA2'']);
          clusterRaw = coalesce [r ''cluster'', r ''Cluster'', r ''clusters'', r ''Clusters'',
                                 r ''community'', r ''Community'', r ''label'', r ''Label'',
                                 r ''comm_id'', r ''comm'', JNull];
          clusterRaw' =
            (case clusterRaw of
               JStr s \<Rightarrow>
                 (let t = trim s
                  in if t = [] \<or> toLowerCase t = ''nan'' \<or> toLowerCase t = ''none''
                        \<or> toLowerCase t = ''null''
                     then JNull else clusterRaw)
             | _ \<Rightarrow> clusterRaw)
      in \<lparr>node_id = id, x_KPCA = x, y_KPCA = y, cluster = clusterRaw', columns = r\<rparr>)"

text \<open>\<^verbatim>\<open>filter(Boolean)\<close> keeps every row, a row being an object.\<close>

definition nNorm :: "(real \<Rightarrow> string) \<Rightarrow> row list \<Rightarrow> node list" where
  "nNorm pr nrows = map (nNorm_row pr) nrows"

record edge =
  source_id :: string
  target_id :: string
  weight :: num

definition eNorm_row :: "(real \<Rightarrow> string) \<Rightarrow> row \<Rightarrow> edge" where
  "eNorm_row pr r =
     (let s = coalesce [r ''source_id'', r ''source'', r ''from'', r ''i'', r ''u'', r ''SOURCE'',
                        r ''Source'', r ''From''];
          t = coalesce [r ''target_id'', r ''target'', r ''to'', r ''j'', r ''v'', r ''TARGET'',
                        r ''Target'', r ''To''];
          w = coalesce [r ''weight'', r ''w'', r ''value'', r ''sim'', r ''similarity'', r ''Weight'',
                        r ''W'']
      in \<lparr>source_id = trim (ToString pr (qq s (JStr ''''))),
          target_id = trim (ToString pr (qq t (JStr ''''))),
          weight = ToNumber (qq w (JNum (Fin 1)))\<rparr>)"

definition eNorm :: "(real \<Rightarrow> string) \<Rightarrow> row list \<Rightarrow> edge list" where
  "eNorm pr erows =
     filter (\<lambda>e. source_id e \<noteq> [] \<and> target_id e \<noteq> []) (map (eNorm_row pr) erows)"

section \<open>Covariance ellipse\<close>

record eig =
  vals :: "num \<times> num"
  vecs :: "(num \<times> num) \<times> (num \<times> num)"

definition eig2x2 :: "num \<Rightarrow> num \<Rightarrow> num \<Rightarrow> num \<Rightarrow> eig" where
  "eig2x2 a b c d =
     (let tr = a + d;
          det = a * d - b * b;
          tmp = Math_sqrt (Math_max (Fin 0) ((tr * tr) / Fin 4 - det));
          l1 = tr / Fin 2 + tmp;
          l2 = tr / Fin 2 - tmp;
          small = (Math_abs b + Math_abs (l1 - a) < rnd (1 / 10 ^ 12));
          v1x = (if small then l1 - d else b);
          v1y = (if small then b else l1 - a);
          n1 = lor (Math_hypot v1x v1y) (Fin 1);
          v1x' = v1x / n1;
          v1y' = v1y / n1;
          v2x = - v1y';
          v2y = v1x'
      in \<lparr>vals = (l1, l2), vecs = ((v1x', v2x), (v1y', v2y))\<rparr>)"

record point =
  px :: num
  py :: num

record ellipse_fit =
  cx :: num
  cy :: num
  width :: num
  height :: num
  angle :: num

text \<open>One round of the loop that sums the squares and products of the centred coordinates,
  on \<^verbatim>\<open>(sxx, syy, sxy)\<close>.\<close>

definition cov_step :: "num \<Rightarrow> num \<Rightarrow> num \<times> num \<times> num \<Rightarrow> point \<Rightarrow> num \<times> num \<times> num" where
  "cov_step mx my acc p =
     (case acc of (sxx, syy, sxy) \<Rightarrow>
        (let dx = px p - mx; dy = py p - my
         in (sxx + dx * dx, syy + dy * dy, sxy + dx * dy)))"

definition covEllipse :: "point list \<Rightarrow> num \<Rightarrow> ellipse_fit" where
  "covEllipse points k =
     (let n = Fin (real (length points));
          mx = foldl (\<lambda>s p. s + px p) (Fin 0) points / n;
          my = foldl (\<lambda>s p. s + py p) (Fin 0) points / n;
          s3 = foldl (cov_step mx my) (Fin 0, Fin 0, Fin 0) points;
          sxx = fst s3 / n + rnd (1 / 10 ^ 9);
          syy = fst (snd s3) / n + rnd (1 / 10 ^ 9);
          sxy = snd (snd s3) / n;
          e = eig2x2 sxx sxy sxy syy;
          width = Fin 1.5 * k * Math_sqrt (Math_max (fst (vals e)) (Fin 0));
          height = Fin 2 * k * Math_sqrt (Math_max (snd (vals e)) (Fin 0));
          angle = Math_atan2 (fst (snd (vecs e))) (fst (fst (vecs e)))
      in \<lparr>cx = mx, cy = my, width = width, height = height, angle = angle\<rparr>)"

section \<open>Scene\<close>

record extent_box =
  xmin :: num
  xmax :: num
  ymin :: num
  ymax :: num

definition extent :: "node list \<Rightarrow> extent_box" where
  "extent nodes =
     (if nodes = [] then \<lparr>xmin = Fin (- 1), xmax = Fin 1, ymin = Fin (- 1), ymax = Fin 1\<rparr>
      else
        (let xs = filter Number_isFinite (map x_KPCA nodes);
             ys = filter Number_isFinite (map y_KPCA nodes);
             x0 = Math_min_of xs; x1 = Math_max_of xs;
             y0 = Math_min_of ys; y1 = Math_max_of ys;
             padX = lor (x1 - x0) (Fin 1) * rnd 0.08;
             padY = lor (y1 - y0) (Fin 1) * rnd 0.08
         in \<lparr>xmin = x0 - padX, xmax = x1 + padX, ymin = y0 - padY, ymax = y1 + padY\<rparr>))"

text \<open>
  The table \<^verbatim>\<open>byCluster\<close> is a plain object used as a dictionary: its own keys in the order
  they were added, over the properties every object inherits.  Reading an inherited name
  gives a truthy value that is no array, so the table never gets an own key of that name,
  and \<^verbatim>\<open>push\<close> on it throws.
\<close>

datatype error = TypeError

definition inherited_names :: "string list" where
  "inherited_names =
     [''constructor'', ''__defineGetter__'', ''__defineSetter__'', ''hasOwnProperty'',
      ''__lookupGetter__'', ''__lookupSetter__'', ''isPrototypeOf'', ''propertyIsEnumerable'',
      ''toString'', ''valueOf'', ''__proto__'', ''toLocaleString'']"

type_synonym cluster_table = "(string \<times> point list) list"

definition push_point :: "string \<Rightarrow> point \<Rightarrow> cluster_table \<Rightarrow> cluster_table" where
  "push_point c p tab = map (\<lambda>(k, pts). if k = c then (k, pts @ [p]) else (k, pts)) tab"

text \<open>One round of the loop over the nodes.\<close>

definition byCluster_step ::
  "(real \<Rightarrow> string) \<Rightarrow> cluster_table \<Rightarrow> node \<Rightarrow> error + cluster_table" where
  "byCluster_step pr tab n =
     (let c = ToString pr (qq (cluster n) (JStr ''nan''))
      in if c = ''nan'' then Inr tab
         else
           (let x = x_KPCA n; y = y_KPCA n
            in if c \<in> set inherited_names then
                 (if Number_isFinite x \<and> Number_isFinite y then Inl TypeError else Inr tab)
               else
                 (let tab' = (if c \<in> set (map fst tab) then tab else tab @ [(c, [])])
                  in if Number_isFinite x \<and> Number_isFinite y
                     then Inr (push_point c \<lparr>px = x, py = y\<rparr> tab')
                     else Inr tab')))"

fun byCluster_loop ::
  "(real \<Rightarrow> string) \<Rightarrow> cluster_table \<Rightarrow> node list \<Rightarrow> error + cluster_table" where
  "byCluster_loop pr tab [] = Inr tab"
| "byCluster_loop pr tab (n # ns) =
     (case byCluster_step pr tab n of
        Inl e \<Rightarrow> Inl e
      | Inr tab' \<Rightarrow> byCluster_loop pr tab' ns)"

text \<open>\<^verbatim>\<open>Object.entries\<close> lists the keys that are array indices first, in ascending order, then
  the other keys in the order they were added.\<close>

definition is_index_key :: "string \<Rightarrow> bool" where
  "is_index_key s =
     (s \<noteq> [] \<and> list_all is_digit s \<and> (s = ''0'' \<or> hd s \<noteq> CHR ''0'')
      \<and> digits_val 10 s \<le> 4294967294)"

definition Object_entries :: "cluster_table \<Rightarrow> cluster_table" where
  "Object_entries tab =
     sort_key (\<lambda>(k, pts). digits_val 10 k) (filter (\<lambda>(k, pts). is_index_key k) tab)
     @ filter (\<lambda>(k, pts). \<not> is_index_key k) tab"

record cluster_ellipse =
  cid :: string
  fit :: ellipse_fit

definition ellipses :: "(real \<Rightarrow> string) \<Rightarrow> bool \<Rightarrow> node list \<Rightarrow> error + cluster_ellipse list" where
  "ellipses pr showEllipses nodes =
     (if \<not> showEllipses then Inr []
      else
        (case byCluster_loop pr [] nodes of
           Inl e \<Rightarrow> Inl e
         | Inr byCluster \<Rightarrow>
             Inr (map (\<lambda>(c, pts). \<lparr>cid = c, fit = covEllipse pts (Fin 2.5)\<rparr>)
                    (filter (\<lambda>(c, pts). 2 < length pts) (Object_entries byCluster)))))"

text \<open>The map from an id to its node: a later node of the same id replaces an earlier one.\<close>

definition nodeById :: "node list \<Rightarrow> (string \<rightharpoonup> node)" where
  "nodeById nodes = foldl (\<lambda>m n. m(node_id n \<mapsto> n)) Map.empty nodes"

record segment =
  x1 :: num
  y1 :: num
  x2 :: num
  y2 :: num
  w :: num

definition edge_segment :: "(string \<rightharpoonup> node) \<Rightarrow> edge \<Rightarrow> segment option" where
  "edge_segment byId e =
     (case (byId (source_id e), byId (target_id e)) of
        (Some a, Some b) \<Rightarrow>
          (if list_all Number_isFinite [x_KPCA a, y_KPCA a, x_KPCA b, y_KPCA b]
           then Some \<lparr>x1 = x_KPCA a, y1 = y_KPCA a, x2 = x_KPCA b, y2 = y_KPCA b,
                       w = lor (weight e) (Fin 0)\<rparr>
           else None)
      | _ \<Rightarrow> None)"

definition edgeSegments :: "node list \<Rightarrow> edge list \<Rightarrow> segment list" where
  "edgeSegments nodes edges = List.map_filter (edge_segment (nodeById nodes)) edges"

section \<open>Coordinate mapping and picking\<close>

text \<open>The canvas reports its client width and height as natural numbers (32-bit integers in
  the browser); 0 falls back to 900 and 650.\<close>

definition canvas_W :: "nat \<Rightarrow> num" where
  "canvas_W clientWidth = lor (Fin (real clientWidth)) (Fin 900)"

definition canvas_H :: "nat \<Rightarrow> num" where
  "canvas_H clientHeight = lor (Fin (real clientHeight)) (Fin 650)"

definition sx :: "extent_box \<Rightarrow> num \<Rightarrow> num \<Rightarrow> num" where
  "sx ext W x =
     (let u = (x - xmin ext) / lor (xmax ext - xmin ext) (Fin 1)
      in u * (W - Fin 20) + Fin 10)"

definition sy :: "extent_box \<Rightarrow> num \<Rightarrow> num \<Rightarrow> num" where
  "sy ext H y =
     (let v = Fin 1 - (y - ymin ext) / lor (ymax ext - ymin ext) (Fin 1)
      in v * (H - Fin 20) + Fin 10)"

text \<open>The squared pixel distance of a node to the click.\<close>

definition click_d2 :: "extent_box \<Rightarrow> num \<Rightarrow> num \<Rightarrow> real \<Rightarrow> real \<Rightarrow> node \<Rightarrow> num" where
  "click_d2 ext W H click_x click_y n =
     (let dx = sx ext W (x_KPCA n) - Fin click_x;
          dy = sy ext H (y_KPCA n) - Fin click_y
      in dx * dx + dy * dy)"

text \<open>One round of the loop over the nodes, on \<^verbatim>\<open>(bestId, bestD)\<close>.\<close>

definition pick_step ::
  "extent_box \<Rightarrow> num \<Rightarrow> num \<Rightarrow> real \<Rightarrow> real \<Rightarrow> string \<times> num \<Rightarrow> node \<Rightarrow> string \<times> num" where
  "pick_step ext W H click_x click_y best n =
     (if \<not> Number_isFinite (x_KPCA n) \<or> \<not> Number_isFinite (y_KPCA n) then best
      else
        (let d2 = click_d2 ext W H click_x click_y n
         in if d2 < snd best then (node_id n, d2) else best))"

text \<open>The state of the widget that a click reads and writes.\<close>

record state =
  nodes :: "node list"
  edges :: "edge list"
  showEllipses :: bool
  selectedId :: string

definition pick :: "state \<Rightarrow> nat \<Rightarrow> nat \<Rightarrow> real \<Rightarrow> real \<Rightarrow> string" where
  "pick st clientWidth clientHeight click_x click_y =
     fst (foldl (pick_step (extent (nodes st)) (canvas_W clientWidth) (canvas_H clientHeight)
                   click_x click_y)
            ('''', PInf) (nodes st))"

definition handleCanvasClick :: "state \<Rightarrow> nat \<Rightarrow> nat \<Rightarrow> real \<Rightarrow> real \<Rightarrow> state" where
  "handleCanvasClick st clientWidth clientHeight click_x click_y =
     (let bestId = pick st clientWidth clientHeight click_x click_y
      in if bestId \<noteq> [] then st\<lparr>selectedId := bestId\<rparr> else st)"

subsection \<open>The stops of the colormap, for the statements and proofs\<close>

text \<open>The value of a finite number.\<close>

fun fin_val :: "num \<Rightarrow> real" where
  "fin_val (Fin a) = a"
| "fin_val _ = 0"

text \<open>The position of the stop \<open>i\<close>, and the three channels of the color of a stop.\<close>

definition stop_pos :: "nat \<Rightarrow> real" where
  "stop_pos i = fin_val (fst (stops ! i))"






subsection \<open>Finite coordinates, for the statements and proofs\<close>



text \<open>The nodes that are drawn and picked: both coordinates finite.\<close>

definition finite_nodes :: "node list \<Rightarrow> node list" where
  "finite_nodes ns =
     filter (\<lambda>n. Number_isFinite (x_KPCA n) \<and> Number_isFinite (y_KPCA n)) ns"




text \<open>The squared pixel distance of a node to the click, as the click handler computes it.\<close>

definition pixel_d2 :: "state \<Rightarrow> nat \<Rightarrow> nat \<Rightarrow> real \<Rightarrow> real \<Rightarrow> node \<Rightarrow> num" where
  "pixel_d2 st cw ch click_x click_y n =
     click_d2 (extent (nodes st)) (canvas_W cw) (canvas_H ch) click_x click_y n"

text \<open>The nodes a click can pick: the nodes of finite coordinates whose computed distance
  is a finite number (it is \<^verbatim>\<open>NaN\<close> or \<^verbatim>\<open>Infinity\<close> when the arithmetic overflows).\<close>

definition pickable :: "state \<Rightarrow> nat \<Rightarrow> nat \<Rightarrow> real \<Rightarrow> real \<Rightarrow> node list" where
  "pickable st cw ch click_x click_y =
     filter (\<lambda>n. pixel_d2 st cw ch click_x click_y n < PInf) (finite_nodes (nodes st))"

text \<open>\<open>i\<close> is the index in \<open>fs\<close> of a node at the least distance, and of the first such node.\<close>

definition first_nearest :: "(node \<Rightarrow> num) \<Rightarrow> node list \<Rightarrow> nat \<Rightarrow> bool" where
  "first_nearest g fs i =
     (i < length fs \<and> (\<forall>j<length fs. g (fs ! i) \<le> g (fs ! j)) \<and> (\<forall>j<i. g (fs ! i) < g (fs ! j)))"

text \<open>What the loop of the picker holds after the nodes \<open>fs\<close> that can be picked, at the
  distances \<open>g\<close>: nothing while \<open>fs\<close> is empty; else the id and the distance of the first
  node of \<open>fs\<close> at the least distance.\<close>

definition pick_inv :: "(node \<Rightarrow> num) \<Rightarrow> node list \<Rightarrow> string \<times> num \<Rightarrow> bool" where
  "pick_inv g fs res =
     ((fs = [] \<and> res = ([], PInf))
      \<or> (\<exists>i. first_nearest g fs i \<and> res = (node_id (fs ! i), g (fs ! i))))"

text \<open>An edge is drawable on a node list when both of its ids resolve to nodes and the four
  coordinates of the two nodes are finite.\<close>

definition drawable :: "node list \<Rightarrow> edge \<Rightarrow> bool" where
  "drawable ns e =
     (case (nodeById ns (source_id e), nodeById ns (target_id e)) of
        (Some a, Some b) \<Rightarrow>
          Number_isFinite (x_KPCA a) \<and> Number_isFinite (y_KPCA a)
          \<and> Number_isFinite (x_KPCA b) \<and> Number_isFinite (y_KPCA b)
      | _ \<Rightarrow> False)"

text \<open>The weight cell of an edge row: the first of the weight columns that is set.\<close>

definition weight_cell :: "row \<Rightarrow> jsval" where
  "weight_cell r =
     coalesce [r ''weight'', r ''w'', r ''value'', r ''sim'', r ''similarity'', r ''Weight'', r ''W'']"

subsection \<open>Clusters, for the statements and proofs\<close>

text \<open>The key of a node in the cluster table: its label as a string, and \<open>nan\<close> for no label.\<close>

definition cluster_key :: "(real \<Rightarrow> string) \<Rightarrow> node \<Rightarrow> string" where
  "cluster_key pr n = ToString pr (qq (cluster n) (JStr ''nan''))"

definition node_point :: "node \<Rightarrow> point" where
  "node_point n = \<lparr>px = x_KPCA n, py = y_KPCA n\<rparr>"

text \<open>The member points of the cluster \<open>c\<close>: the positions of the nodes of key \<open>c\<close> with two
  finite coordinates, in the order of the node list.\<close>

definition cluster_points :: "(real \<Rightarrow> string) \<Rightarrow> node list \<Rightarrow> string \<Rightarrow> point list" where
  "cluster_points pr ns c = map node_point (filter (\<lambda>n. cluster_key pr n = c) (finite_nodes ns))"

text \<open>The keys the table holds after the nodes \<open>ns\<close>.\<close>

definition live_keys :: "(real \<Rightarrow> string) \<Rightarrow> node list \<Rightarrow> string set" where
  "live_keys pr ns =
     {c. c \<noteq> ''nan'' \<and> c \<notin> set inherited_names \<and> (\<exists>n\<in>set ns. cluster_key pr n = c)}"

text \<open>What the table is after the nodes \<open>ns\<close>: one entry for each key, with the member points
  of the key.\<close>

definition tab_ok :: "(real \<Rightarrow> string) \<Rightarrow> node list \<Rightarrow> cluster_table \<Rightarrow> bool" where
  "tab_ok pr ns tab =
     (distinct (map fst tab) \<and> set (map fst tab) = live_keys pr ns
      \<and> (\<forall>k pts. (k, pts) \<in> set tab \<longrightarrow> pts = cluster_points pr ns k))"

text \<open>The label cell of a node row: the first of the label columns that is set, else
  \<^verbatim>\<open>null\<close>.  A cell is no label when it is \<^verbatim>\<open>null\<close> or \<^verbatim>\<open>undefined\<close>, or a string that is empty
  after trimming or reads \<open>nan\<close>, \<open>none\<close> or \<open>null\<close> in any case.\<close>

definition label_cell :: "row \<Rightarrow> jsval" where
  "label_cell r =
     coalesce [r ''cluster'', r ''Cluster'', r ''clusters'', r ''Clusters'', r ''community'',
               r ''Community'', r ''label'', r ''Label'', r ''comm_id'', r ''comm'', JNull]"

definition no_label :: "jsval \<Rightarrow> bool" where
  "no_label l =
     (case l of
        JUndefined \<Rightarrow> True
      | JNull \<Rightarrow> True
      | JStr s \<Rightarrow> trim s = [] \<or> toLowerCase (trim s) \<in> {''nan'', ''none'', ''null''}
      | _ \<Rightarrow> False)"

subsection \<open>Example data\<close>

text \<open>A node with no column besides the four normalised ones.\<close>

definition example_node :: "string \<Rightarrow> num \<Rightarrow> num \<Rightarrow> jsval \<Rightarrow> node" where
  "example_node i x y c =
     \<lparr>node_id = i, x_KPCA = x, y_KPCA = y, cluster = c, columns = (\<lambda>k. JUndefined)\<rparr>"

text \<open>Three nodes on a diagonal, at \<open>(0, 0)\<close>, \<open>(10, 10)\<close> and \<open>(100, 100)\<close>.\<close>

definition diagonal :: state where
  "diagonal =
     \<lparr>nodes = [example_node ''A'' (Fin 0) (Fin 0) JNull,
               example_node ''B'' (Fin 10) (Fin 10) JNull,
               example_node ''C'' (Fin 100) (Fin 100) JNull],
      edges = [], showEllipses = True, selectedId = []\<rparr>"

text \<open>A node list without any finite position.\<close>

definition unplaced :: state where
  "unplaced =
     \<lparr>nodes = [example_node ''A'' NaN (Fin 0) JNull, example_node ''B'' (Fin 1) PInf JNull],
      edges = [], showEllipses = True, selectedId = ''A''\<rparr>"

text \<open>Two nodes, the first of them with the empty id; the second is selected.\<close>

definition blank_first :: state where
  "blank_first =
     \<lparr>nodes = [example_node [] (Fin 0) (Fin 0) JNull, example_node ''B'' (Fin 10) (Fin 10) JNull],
      edges = [], showEllipses = True, selectedId = ''B''\<rparr>"

text \<open>Rows of the two tables, given by their cells.\<close>

definition row_of :: "(string \<times> jsval) list \<Rightarrow> row" where
  "row_of cells k = (case map_of cells k of Some v \<Rightarrow> v | None \<Rightarrow> JUndefined)"

text \<open>An edge row from \<open>A\<close> to \<open>B\<close> whose weight is the string \<open>abc\<close>, and one without a weight.\<close>

definition edge_row_abc :: row where
  "edge_row_abc = row_of [(''source'', JStr ''A''), (''target'', JStr ''B''), (''weight'', JStr ''abc'')]"

definition edge_row_plain :: row where
  "edge_row_plain = row_of [(''source'', JStr ''A''), (''target'', JStr ''B'')]"

definition two_nodes :: "node list" where
  "two_nodes = [example_node ''A'' (Fin 0) (Fin 0) (JStr ''1''),
                example_node ''B'' (Fin 10) (Fin 10) (JStr ''1'')]"

text \<open>The two node rows and the edge row of the end-to-end scenario: \<open>A\<close> at \<open>(0, 0)\<close> and \<open>B\<close> at
  \<open>(10, 10)\<close>, both of cluster \<open>1\<close>, and an edge from \<open>A\<close> to \<open>B\<close> of weight 2.\<close>

definition node_row_A :: row where
  "node_row_A = row_of [(''id'', JStr ''A''), (''x'', JNum (Fin 0)), (''y'', JNum (Fin 0)),
                        (''cluster'', JStr ''1'')]"

definition node_row_B :: row where
  "node_row_B = row_of [(''id'', JStr ''B''), (''x'', JNum (Fin 10)), (''y'', JNum (Fin 10)),
                        (''cluster'', JStr ''1'')]"

definition edge_row_AB :: row where
  "edge_row_AB = row_of [(''source'', JStr ''A''), (''target'', JStr ''B''), (''weight'', JNum (Fin 2))]"

text \<open>Three nodes of cluster \<open>1\<close>, at \<open>(0, 0)\<close>, \<open>(2, 0)\<close> and \<open>(1, 3)\<close>.\<close>

definition triangle_nodes :: "node list" where
  "triangle_nodes = [example_node ''A'' (Fin 0) (Fin 0) (JStr ''1''),
                     example_node ''B'' (Fin 2) (Fin 0) (JStr ''1''),
                     example_node ''C'' (Fin 1) (Fin 3) (JStr ''1'')]"


section \<open>Rounding to binary64\<close>

subsection \<open>Powers of two\<close>

lemma p2_le_iff: "(2::real) powi a \<le> 2 powi b \<longleftrightarrow> a \<le> b"
proof
  assume l: "(2::real) powi a \<le> 2 powi b"
  show "a \<le> b"
  proof (rule ccontr)
    assume "\<not> a \<le> b"
    then have "(2::real) powi b < 2 powi a" by (intro power_int_strict_increasing) simp_all
    with l show False by simp
  qed
next
  assume "a \<le> b"
  then show "(2::real) powi a \<le> 2 powi b" by (intro power_int_increasing) simp_all
qed

lemma p2_less_iff: "(2::real) powi a < 2 powi b \<longleftrightarrow> a < b"
  using p2_le_iff [of b a] by (simp add: not_le [symmetric])

lemma p2_add: "(2::real) powi (a + b) = 2 powi a * 2 powi b"
  by (simp add: power_int_add)

lemma p2_diff: "(2::real) powi (a - b) = 2 powi a / 2 powi b"
  by (simp add: power_int_diff)

lemma p2_Suc: "(2::real) powi (a + 1) = 2 * 2 powi a"
  by (simp add: power_int_add)

lemma p2_pred: "(2::real) powi (a - 1) = 2 powi a / 2"
  by (simp add: power_int_diff)

lemma p2_int: "0 \<le> a \<Longrightarrow> (2::real) powi a = of_int (2 ^ nat a)"
  by (simp add: power_int_nonneg_exp)

subsection \<open>The binary exponent\<close>

lemma bexp_bounds:
  "0 < x \<Longrightarrow> 2 powi bexp x \<le> x \<and> x < 2 powi (bexp x + 1)"
proof (induction x rule: bexp.induct)
  case (1 x)
  show ?case
  proof (cases "2 \<le> x")
    case True
    with 1 have "2 powi bexp (x / 2) \<le> x / 2 \<and> x / 2 < 2 powi (bexp (x / 2) + 1)" by simp
    then have "2 * 2 powi bexp (x / 2) \<le> x \<and> x < 2 * 2 powi (bexp (x / 2) + 1)" by simp
    then have "2 powi (bexp (x / 2) + 1) \<le> x \<and> x < 2 powi (bexp (x / 2) + 1 + 1)"
      by (simp only: p2_Suc)
    moreover from True have "bexp x = bexp (x / 2) + 1" by (simp add: bexp.simps [of x])
    ultimately show ?thesis by (simp only:)
  next
    case False
    show ?thesis
    proof (cases "x < 1")
      case True
      with 1 False have "2 powi bexp (2 * x) \<le> 2 * x \<and> 2 * x < 2 powi (bexp (2 * x) + 1)" by simp
      then have "2 powi bexp (2 * x) / 2 \<le> x \<and> x < 2 powi bexp (2 * x)"
        by (simp add: p2_Suc)
      then have "2 powi (bexp (2 * x) - 1) \<le> x \<and> x < 2 powi (bexp (2 * x) - 1 + 1)"
        by (simp add: p2_pred)
      moreover from True False 1 have "bexp x = bexp (2 * x) - 1" by (simp add: bexp.simps [of x])
      ultimately show ?thesis by (simp only:)
    next
      case c: False
      with False have "bexp x = 0" by (simp add: bexp.simps [of x])
      with c False show ?thesis by simp
    qed
  qed
qed

lemma bexp_eqI:
  assumes "2 powi k \<le> x" "x < 2 powi (k + 1)"
  shows "bexp x = k"
proof -
  have "0 < (2::real) powi k" by simp
  with assms have x: "0 < x" by linarith
  from bexp_bounds [OF x] assms have "(2::real) powi bexp x < 2 powi (k + 1)" "(2::real) powi k < 2 powi (bexp x + 1)"
    by linarith+
  then show ?thesis by (simp add: p2_less_iff)
qed

lemma bexp_mono:
  assumes "0 < x" "x \<le> y"
  shows "bexp x \<le> bexp y"
proof -
  from assms have y: "0 < y" by simp
  from bexp_bounds [OF assms(1)] bexp_bounds [OF y] assms(2)
  have "(2::real) powi bexp x < 2 powi (bexp y + 1)" by linarith
  then show ?thesis by (simp add: p2_less_iff)
qed

lemma bexp_less:
  assumes "0 < x" "x < 2 powi k"
  shows "bexp x < k"
proof -
  from bexp_bounds [OF assms(1)] assms(2)
  have "(2::real) powi bexp x < 2 powi k" by linarith
  then show ?thesis by (simp add: p2_less_iff)
qed

lemma bexp_ge:
  assumes "2 powi k \<le> x"
  shows "k \<le> bexp x"
proof -
  have "0 < (2::real) powi k" by simp
  with assms have x: "0 < x" by linarith
  from bexp_bounds [OF x] assms
  have "(2::real) powi k < 2 powi (bexp x + 1)" by linarith
  then show ?thesis by (simp add: p2_less_iff)
qed

subsection \<open>Rounding to the nearest integer, ties to even\<close>

lemma rne_cases:
  "rne z = \<lfloor>z\<rfloor> \<or> rne z = \<lfloor>z\<rfloor> + 1"
  by (simp add: rne_def Let_def)

lemma rne_of_int [simp]: "rne (of_int n) = n"
  by (simp add: rne_def)

lemma rne_0 [simp]: "rne 0 = 0"
  by (simp add: rne_def)

lemma rne_lower: "\<lfloor>z\<rfloor> \<le> rne z"
  by (simp add: rne_def Let_def)

lemma rne_upper: "rne z \<le> \<lceil>z\<rceil>"
proof (cases "z = of_int \<lfloor>z\<rfloor>")
  case True
  then have "rne z = \<lfloor>z\<rfloor>" by (metis rne_of_int)
  then show ?thesis by (simp add: floor_le_ceiling)
next
  case False
  then have "\<lceil>z\<rceil> = \<lfloor>z\<rfloor> + 1" by (simp add: ceiling_altdef)
  with rne_cases [of z] show ?thesis by auto
qed

lemma rne_err: "\<bar>of_int (rne z) - z\<bar> \<le> 1 / 2"
proof -
  have "of_int \<lfloor>z\<rfloor> \<le> z" "z < of_int \<lfloor>z\<rfloor> + 1" by linarith+
  then show ?thesis by (auto simp: rne_def Let_def)
qed

lemma rne_mono:
  assumes "z \<le> z'"
  shows "rne z \<le> rne z'"
proof (cases "\<lfloor>z\<rfloor> = \<lfloor>z'\<rfloor>")
  case True
  with assms show ?thesis by (auto simp: rne_def Let_def)
next
  case False
  with assms have "\<lfloor>z\<rfloor> < \<lfloor>z'\<rfloor>" using floor_mono [OF assms] by linarith
  with rne_cases [of z] rne_lower [of z'] show ?thesis by linarith
qed

lemma rne_minus: "rne (- z) = - rne z"
proof (cases "z = of_int \<lfloor>z\<rfloor>")
  case True
  then obtain n where "z = of_int n" ..
  then have "rne (- z) = rne (of_int (- n))" by simp
  also have "\<dots> = - n" by (rule rne_of_int)
  finally show ?thesis using \<open>z = of_int n\<close> by simp
next
  case False
  then have f: "\<lfloor>- z\<rfloor> = - \<lfloor>z\<rfloor> - 1"
    by (simp add: floor_minus ceiling_altdef)
  have "of_int \<lfloor>z\<rfloor> \<le> z" "z < of_int \<lfloor>z\<rfloor> + 1" by linarith+
  then show ?thesis unfolding rne_def Let_def f by auto
qed

lemma rne_nonneg: "0 \<le> z \<Longrightarrow> 0 \<le> rne z"
  using rne_lower [of z] by (simp add: order_trans [of 0 "\<lfloor>z\<rfloor>"])

subsection \<open>Rounding a real to the binary64 grid\<close>

lemma ulp_exp_minus [simp]: "ulp_exp (- x) = ulp_exp x"
  by (simp add: ulp_exp_def)

lemma ulp_exp_ge: "- 1074 \<le> ulp_exp x"
  by (simp add: ulp_exp_def)

lemma round64_minus: "round64 (- x) = - round64 x"
  by (simp add: round64_def rne_minus)

lemma round64_0 [simp]: "round64 0 = 0"
  by (simp add: round64_def)

lemma round64_nonneg: "0 \<le> x \<Longrightarrow> 0 \<le> round64 x"
  by (simp add: round64_def rne_nonneg)

lemma round64_nonpos: "x \<le> 0 \<Longrightarrow> round64 x \<le> 0"
  using round64_nonneg [of "- x"] by (simp add: round64_minus)

lemma abs_less_ulp:
  "\<bar>x\<bar> < 2 powi (ulp_exp x + 53)"
proof (cases "x = 0")
  case True then show ?thesis by simp
next
  case False
  then have "\<bar>x\<bar> < 2 powi (bexp \<bar>x\<bar> + 1)" using bexp_bounds [of "\<bar>x\<bar>"] by simp
  also have "\<dots> \<le> 2 powi (ulp_exp x + 53)" by (simp add: p2_le_iff ulp_exp_def)
  finally show ?thesis .
qed

lemma round64_mantissa:
  "\<bar>rne (x / 2 powi ulp_exp x)\<bar> \<le> 2 ^ 53"
proof -
  let ?z = "x / 2 powi ulp_exp x"
  have "\<bar>?z\<bar> = \<bar>x\<bar> / 2 powi ulp_exp x" by simp
  also have "\<dots> < 2 powi (ulp_exp x + 53) / 2 powi ulp_exp x"
    by (intro divide_strict_right_mono abs_less_ulp) simp
  also have "\<dots> = 2 ^ 53" by (simp add: p2_add)
  finally have z: "\<bar>?z\<bar> < 2 ^ 53" .
  then have "?z < 2 ^ 53 \<and> - ?z < 2 ^ 53" by (simp only: abs_less_iff)
  then have "?z \<le> of_int (2 ^ 53)" "of_int (- (2 ^ 53)) \<le> ?z" by simp_all
  then have "rne ?z \<le> rne (of_int (2 ^ 53))" "rne (of_int (- (2 ^ 53))) \<le> rne ?z"
    by (simp_all only: rne_mono)
  then show ?thesis unfolding rne_of_int by simp
qed

lemma round64_exact:
  assumes x: "x = of_int n * 2 powi j" and n: "\<bar>n\<bar> \<le> 2 ^ 53" and j: "- 1074 \<le> j"
  shows "round64 x = x"
proof (cases "n = 0")
  case True with x show ?thesis by simp
next
  case False
  then have x0: "x \<noteq> 0" using x by simp
  have ax: "\<bar>x\<bar> = of_int \<bar>n\<bar> * 2 powi j" using x by (simp add: abs_mult)
  have e: "ulp_exp x \<le> j \<or> (\<bar>n\<bar> = 2 ^ 53 \<and> ulp_exp x = j + 1)"
  proof (cases "\<bar>n\<bar> = 2 ^ 53")
    case True
    with ax have "\<bar>x\<bar> = 2 powi (j + 53)" by (simp add: p2_add mult.commute)
    then have "bexp \<bar>x\<bar> = j + 53" by (intro bexp_eqI) (simp_all add: p2_less_iff)
    with j True show ?thesis by (simp add: ulp_exp_def)
  next
    case F: False
    with n have "\<bar>n\<bar> < 2 ^ 53" by simp
    then have "(of_int \<bar>n\<bar> :: real) < of_int (2 ^ 53)" by (simp only: of_int_less_iff)
    then have "\<bar>x\<bar> < 2 ^ 53 * 2 powi j" unfolding ax by simp
    also have "\<dots> = 2 powi (j + 53)" by (simp add: p2_add)
    finally have "bexp \<bar>x\<bar> < j + 53" using x0 by (intro bexp_less) simp_all
    with j show ?thesis by (simp add: ulp_exp_def)
  qed
  define e where "e = ulp_exp x"
  have r: "round64 x = of_int (rne (x / 2 powi e)) * 2 powi e"
    by (simp add: round64_def e_def)
  from e have "e \<le> j \<or> (\<bar>n\<bar> = 2 ^ 53 \<and> e = j + 1)" by (simp only: e_def)
  then show ?thesis
  proof
    assume le: "e \<le> j"
    define d where "d = nat (j - e)"
    with le have jd: "j - e = int d" by simp
    have "x / 2 powi e = of_int n * 2 powi (j - e)"
      by (simp add: x p2_diff)
    also have "\<dots> = of_int (n * 2 ^ d)" unfolding jd by simp
    finally have q: "x / 2 powi e = of_int (n * 2 ^ d)" .
    have "round64 x = of_int (n * 2 ^ d) * 2 powi e"
      unfolding r q by (simp only: rne_of_int)
    also have "\<dots> = x / 2 powi e * 2 powi e" by (simp only: q)
    also have "\<dots> = x" by simp
    finally show ?thesis .
  next
    assume a: "\<bar>n\<bar> = 2 ^ 53 \<and> e = j + 1"
    then have "n = 2 ^ 53 \<or> n = - (2 ^ 53)" by linarith
    then obtain s :: int where s: "n = s * 2 ^ 53" by (elim disjE) (auto intro: that [of 1] that [of "- 1"])
    have "x / 2 powi e = of_int n * 2 powi j / (2 * 2 powi j)"
      using a by (simp add: x p2_Suc)
    also have "\<dots> = of_int (s * 2 ^ 52)" by (simp add: s)
    finally have q: "x / 2 powi e = of_int (s * 2 ^ 52)" .
    have "round64 x = of_int (s * 2 ^ 52) * 2 powi e"
      unfolding r q by (simp only: rne_of_int)
    also have "\<dots> = x / 2 powi e * 2 powi e" by (simp only: q)
    also have "\<dots> = x" by simp
    finally show ?thesis .
  qed
qed

lemma round64_int: "\<bar>n\<bar> \<le> 2 ^ 53 \<Longrightarrow> round64 (of_int n) = of_int n"
  using round64_exact [of "of_int n" n 0] by simp

lemma round64_1 [simp]: "round64 1 = 1"
  using round64_int [of 1] by simp

lemma round64_p2: "- 1074 \<le> j \<Longrightarrow> round64 (2 powi j) = 2 powi j"
  using round64_exact [of "2 powi j" 1 j] by simp


lemma round64_mono_pos:
  assumes "0 < x" "x \<le> y"
  shows "round64 x \<le> round64 y"
proof -
  from assms have y: "0 < y" by simp
  have ee: "ulp_exp x \<le> ulp_exp y"
    using bexp_mono [of x y] assms by (simp add: ulp_exp_def)
  show ?thesis
  proof (cases "ulp_exp x = ulp_exp y")
    case True
    have "x / 2 powi ulp_exp y \<le> y / 2 powi ulp_exp y"
      using assms by (intro divide_right_mono) simp_all
    then have "rne (x / 2 powi ulp_exp y) \<le> rne (y / 2 powi ulp_exp y)" by (rule rne_mono)
    then show ?thesis unfolding round64_def True by (simp add: mult_right_mono)
  next
    case False
    with ee have lt: "ulp_exp x + 1 \<le> ulp_exp y" by simp
    then have ey: "ulp_exp y = bexp y - 52"
      using ulp_exp_ge [of x] y by (simp add: ulp_exp_def split: if_splits)
    have "of_int (rne (x / 2 powi ulp_exp x)) \<le> (2 ^ 53 :: real)"
      using round64_mantissa [of x] by (simp add: abs_le_iff flip: of_int_le_iff)
    then have "round64 x \<le> 2 ^ 53 * 2 powi ulp_exp x"
      unfolding round64_def by (intro mult_right_mono) simp_all
    also have "\<dots> = 2 powi (ulp_exp x + 53)" by (simp add: p2_add)
    also have "\<dots> \<le> 2 powi bexp y" using lt ey by (simp add: p2_le_iff)
    finally have a: "round64 x \<le> 2 powi bexp y" .
    have "2 powi bexp y / 2 powi ulp_exp y \<le> y / 2 powi ulp_exp y"
      using bexp_bounds [OF y] by (intro divide_right_mono) simp_all
    moreover have "(2::real) powi bexp y / 2 powi ulp_exp y = of_int (2 ^ 52)"
      unfolding ey by (simp add: p2_diff)
    ultimately have "rne (of_int (2 ^ 52)) \<le> rne (y / 2 powi ulp_exp y)"
      by (intro rne_mono) simp
    then have "(2 ^ 52 :: real) \<le> of_int (rne (y / 2 powi ulp_exp y))"
      unfolding rne_of_int by (simp flip: of_int_le_iff)
    then have "2 ^ 52 * 2 powi ulp_exp y \<le> round64 y"
      unfolding round64_def by (intro mult_right_mono) simp_all
    moreover have "(2::real) ^ 52 * 2 powi ulp_exp y = 2 powi bexp y"
      unfolding ey by (simp add: p2_diff)
    ultimately show ?thesis using a by simp
  qed
qed

lemma round64_mono:
  assumes "x \<le> y"
  shows "round64 x \<le> round64 y"
proof -
  consider "0 < x" | "x \<le> 0" "0 \<le> y" | "y < 0" using assms by linarith
  then show ?thesis
  proof cases
    case 1 then show ?thesis using assms by (rule round64_mono_pos)
  next
    case 2
    then show ?thesis using round64_nonpos [of x] round64_nonneg [of y] by simp
  next
    case 3
    with assms have "round64 (- y) \<le> round64 (- x)" by (intro round64_mono_pos) simp_all
    then show ?thesis by (simp add: round64_minus)
  qed
qed

lemma round64_err: "\<bar>round64 x - x\<bar> \<le> 2 powi ulp_exp x / 2"
proof -
  let ?q = "2 powi ulp_exp x :: real"
  have "round64 x - x = (of_int (rne (x / ?q)) - x / ?q) * ?q"
    by (simp add: round64_def algebra_simps)
  then have "\<bar>round64 x - x\<bar> = \<bar>of_int (rne (x / ?q)) - x / ?q\<bar> * ?q"
    by (simp add: abs_mult)
  also have "\<dots> \<le> 1 / 2 * ?q" by (intro mult_right_mono rne_err) simp
  finally show ?thesis by simp
qed

subsection \<open>The number a real rounds to\<close>

lemma rnd_cases: "rnd x = Fin (round64 x) \<or> rnd x = PInf \<or> rnd x = NInf"
  by (simp add: rnd_def Let_def)

lemma rnd_Fin: "\<bar>round64 x\<bar> < 2 powi 1024 \<Longrightarrow> rnd x = Fin (round64 x)"
  by (simp add: rnd_def Let_def)

lemma rnd_not_NaN [simp]: "rnd x \<noteq> NaN"
  by (simp add: rnd_def Let_def)

lemma rnd_0 [simp]: "rnd 0 = Fin 0"
  by (simp add: rnd_def)

lemma rnd_minus: "rnd (- x) = - rnd x"
  by (simp add: rnd_def Let_def round64_minus)

lemma round64_abs_le:
  assumes "\<bar>x\<bar> \<le> b" "round64 b = b"
  shows "\<bar>round64 x\<bar> \<le> b"
proof -
  from assms(1) have "x \<le> b" "- b \<le> x" by simp_all
  then have "round64 x \<le> round64 b" "round64 (- b) \<le> round64 x" by (simp_all only: round64_mono)
  then show ?thesis using assms(2) by (simp add: round64_minus abs_le_iff)
qed



lemma round64_abs_le_p2:
  assumes "\<bar>x\<bar> \<le> 2 powi k" "- 1074 \<le> k"
  shows "\<bar>round64 x\<bar> \<le> 2 powi k"
  using assms by (intro round64_abs_le round64_p2)

lemma rnd_Fin_p2:
  assumes "\<bar>x\<bar> \<le> 2 powi k" "- 1074 \<le> k" "k < 1024"
  shows "rnd x = Fin (round64 x)"
proof -
  have "\<bar>round64 x\<bar> \<le> 2 powi k" using assms(1,2) by (rule round64_abs_le_p2)
  also have "\<dots> < 2 powi 1024" using assms(3) by (simp only: p2_less_iff)
  finally show ?thesis by (rule rnd_Fin)
qed

lemma rnd_exact:
  assumes "x = of_int n * 2 powi j" "\<bar>n\<bar> \<le> 2 ^ 53" "- 1074 \<le> j" "\<bar>x\<bar> < 2 powi 1024"
  shows "rnd x = Fin x"
proof -
  have "round64 x = x" using assms(1-3) by (rule round64_exact)
  with assms(4) show ?thesis by (simp add: rnd_def)
qed

lemma rnd_int: "\<bar>n\<bar> \<le> 2 ^ 53 \<Longrightarrow> rnd (of_int n) = Fin (of_int n)"
proof -
  assume n: "\<bar>n\<bar> \<le> 2 ^ 53"
  then have "\<bar>real_of_int n\<bar> \<le> 2 ^ 53" by (simp flip: of_int_abs of_int_le_iff)
  then have "\<bar>real_of_int n\<bar> < 2 powi 1024" by simp
  with n show ?thesis by (intro rnd_exact [of _ n 0]) simp_all
qed

lemma rnd_nat: "n \<le> 2 ^ 53 \<Longrightarrow> rnd (real n) = Fin (real n)"
  using rnd_int [of "int n"] by simp

lemma rnd_numeral [simp]: "numeral k \<le> (2 ^ 53 :: nat) \<Longrightarrow> rnd (numeral k) = Fin (numeral k)"
  using rnd_nat [of "numeral k"] by simp

lemma rnd_neg_numeral [simp]:
  "numeral k \<le> (2 ^ 53 :: nat) \<Longrightarrow> rnd (- numeral k) = Fin (- numeral k)"
  using rnd_numeral [of k] by (simp add: rnd_minus)

lemma rnd_1 [simp]: "rnd 1 = Fin 1"
  using rnd_nat [of 1] by simp




text \<open>The order of the numbers, and rounding in that order.\<close>

lemma Fin_le [simp]: "Fin a \<le> Fin b \<longleftrightarrow> a \<le> b"
  by (auto simp: less_eq_num_def)

lemma le_PInf [simp]: "v \<le> PInf \<longleftrightarrow> v \<noteq> NaN"
  by (cases v) (simp_all add: less_eq_num_def)

lemma NInf_le [simp]: "NInf \<le> v \<longleftrightarrow> v \<noteq> NaN"
  by (cases v) (simp_all add: less_eq_num_def)

lemma rnd_mono:
  assumes "x \<le> y"
  shows "rnd x \<le> rnd y"
proof -
  have m: "round64 x \<le> round64 y" using assms by (rule round64_mono)
  show ?thesis
  proof (cases "2 powi 1024 \<le> \<bar>round64 x\<bar>")
    case True
    show ?thesis
    proof (cases "0 < round64 x")
      case p: True
      with True m have "2 powi 1024 \<le> \<bar>round64 y\<bar>" "0 < round64 y" by simp_all
      with True p show ?thesis by (simp add: rnd_def Let_def)
    next
      case False
      with True have "rnd x = NInf" by (simp add: rnd_def Let_def)
      then show ?thesis by simp
    qed
  next
    case False
    then have x: "rnd x = Fin (round64 x)" by (simp add: rnd_def Let_def)
    show ?thesis
    proof (cases "2 powi 1024 \<le> \<bar>round64 y\<bar>")
      case True
      with False m have "0 < round64 y" by (simp add: abs_if split: if_splits)
      with True have "rnd y = PInf" by (simp add: rnd_def Let_def)
      then show ?thesis by simp
    next
      case F: False
      then have "rnd y = Fin (round64 y)" by (simp add: rnd_def Let_def)
      with x m show ?thesis by simp
    qed
  qed
qed

subsection \<open>Computing a rounding\<close>

text \<open>Rounding a literal is a computation.\<close>

lemmas bexp_eval =
  bexp.simps [of "numeral a" for a] bexp.simps [of "numeral a / numeral b" for a b]
  bexp.simps [of "1 / numeral b" for b] bexp.simps [of 1] bexp.simps [of 0]

lemmas round64_eval = round64_def ulp_exp_def bexp_eval rne_def

lemma rnd_eval: "rnd x = (if 2 powi 1024 \<le> \<bar>round64 x\<bar> then (if 0 < round64 x then PInf else NInf) else Fin (round64 x))"
  by (simp add: rnd_def Let_def)

lemma rnd_unit: "\<bar>x\<bar> \<le> 1 \<Longrightarrow> rnd x = Fin (round64 x)"
  using rnd_Fin_p2 [of x 0] by simp



subsection \<open>The relative error of a rounding\<close>

lemma round64_rel_err:
  assumes "2 powi (- 1022) \<le> \<bar>x\<bar>"
  shows "\<bar>round64 x - x\<bar> \<le> \<bar>x\<bar> / 2 ^ 53"
proof -
  have k: "- 1022 \<le> bexp \<bar>x\<bar>" using assms by (rule bexp_ge)
  then have e: "ulp_exp x = bexp \<bar>x\<bar> - 52" by (simp add: ulp_exp_def)
  have x0: "0 < \<bar>x\<bar>"
  proof -
    have "(0::real) < 2 powi (- 1022)" by simp
    with assms show ?thesis by linarith
  qed
  have "\<bar>round64 x - x\<bar> \<le> 2 powi (bexp \<bar>x\<bar> - 52) / 2"
    using round64_err [of x] by (simp only: e)
  also have "\<dots> = 2 powi bexp \<bar>x\<bar> / 2 ^ 53" by (simp add: p2_diff)
  also have "\<dots> \<le> \<bar>x\<bar> / 2 ^ 53"
    using bexp_bounds [OF x0] by (intro divide_right_mono) simp_all
  finally show ?thesis .
qed

section \<open>Arithmetic on finite numbers\<close>

lemma Fin_minus: "Fin a - Fin b = rnd (a - b)"
  by (simp add: minus_num_def)

lemma Fin_plus: "Fin a + Fin b = rnd (a + b)"
  by simp

lemma Fin_times: "Fin a * Fin b = rnd (a * b)"
  by simp

lemma Fin_divide: "b \<noteq> 0 \<Longrightarrow> Fin a / Fin b = rnd (a / b)"
  by simp

lemma Fin_minus_self [simp]: "Fin a - Fin a = Fin 0"
  by (simp add: minus_num_def)

lemma lor_Fin [simp]: "lor (Fin a) b = (if a = 0 then b else Fin a)"
  by (simp add: lor_def)

lemma Math_min_Fin [simp]: "Math_min (Fin a) (Fin b) = Fin (min a b)"
  by (simp add: min_def)

lemma Math_max_Fin [simp]: "Math_max (Fin a) (Fin b) = Fin (max a b)"
  by (simp add: max_def)

lemma isFinite_iff: "Number_isFinite v \<longleftrightarrow> (\<exists>a. v = Fin a)"
  by (cases v) simp_all






lemma canvas_W_finite: "\<exists>W. canvas_W clientWidth = Fin W \<and> 0 < W"
  by (simp add: canvas_W_def)

lemma canvas_H_finite: "\<exists>H. canvas_H clientHeight = Fin H \<and> 0 < H"
  by (simp add: canvas_H_def)

section \<open>The extent\<close>


text \<open>The literal \<^verbatim>\<open>0.08\<close> is a positive number, and the product of 1 and it is itself.\<close>

lemma literal_008: "rnd 0.08 = Fin (5764607523034235 / 72057594037927936)"
  by (simp add: rnd_eval round64_eval)












text \<open>The extent of the three nodes at \<open>(0, 0)\<close>, \<open>(10, 10)\<close> and \<open>(100, 100)\<close> is
  \<open>[-8, 108] \<times> [-8, 108]\<close>: 8 percent of the span 100 rounds to 8.\<close>

lemma pad_diagonal: "(Fin 100 - Fin 0) * rnd 0.08 = Fin 8"
proof -
  have "Fin 100 - Fin 0 = Fin 100" by (simp add: Fin_minus rnd_eval round64_eval)
  moreover have "Fin 100 * Fin (5764607523034235 / 72057594037927936) = Fin 8"
    by (simp add: rnd_eval round64_eval)
  ultimately show ?thesis by (simp only: literal_008)
qed

lemma extent_diagonal:
  "extent (nodes diagonal) = \<lparr>xmin = Fin (- 8), xmax = Fin 108, ymin = Fin (- 8), ymax = Fin 108\<rparr>"
proof -
  have a: "Fin 100 - Fin 0 = Fin 100" by (simp add: Fin_minus rnd_eval round64_eval)
  have b: "Fin 0 - Fin 8 = Fin (- 8)" "Fin 100 + Fin 8 = Fin 108"
    by (simp_all add: Fin_minus rnd_eval round64_eval)
  have p: "Fin 100 * rnd (2 / 25) = Fin 8"
    using pad_diagonal by (simp add: a)
  show ?thesis
    by (simp add: extent_def diagonal_def example_node_def Math_min_of_def Math_max_of_def Let_def
        a p b)
qed



section \<open>Properties of the colormap\<close>

lemma below_ten:
  "i < (10::nat) \<Longrightarrow> i = 0 \<or> i = 1 \<or> i = 2 \<or> i = 3 \<or> i = 4 \<or> i = 5 \<or> i = 6 \<or> i = 7 \<or> i = 8 \<or> i = 9"
  by arith

lemma below_nine:
  "i \<le> (8::nat) \<Longrightarrow> i = 0 \<or> i = 1 \<or> i = 2 \<or> i = 3 \<or> i = 4 \<or> i = 5 \<or> i = 6 \<or> i = 7 \<or> i = 8"
  by arith



lemma stop_pos_table:
  "i < 10 \<Longrightarrow>
     stop_pos i = round64 ([0, 0.111, 0.222, 0.333, 0.444, 0.555, 0.666, 0.777, 0.888, 1] ! i)"
  by (drule below_ten, elim disjE) (simp_all add: stops_def stop_pos_def rnd_unit)




text \<open>Two neighbouring stops are at least \<open>1/16\<close> apart, and all stops lie in \<open>[0, 1]\<close>.\<close>

lemma stop_pos_step:
  "i \<le> 8 \<Longrightarrow> 0 \<le> stop_pos i \<and> stop_pos (i + 1) \<le> 1 \<and> stop_pos i + 1 / 16 \<le> stop_pos (i + 1)"
  by (drule below_nine, elim disjE) (simp_all add: stop_pos_table round64_eval)

lemma stop_pos_0: "stop_pos 0 = 0"
  by (simp add: stop_pos_table)

lemma stop_pos_9: "stop_pos 9 = 1"
  by (simp add: stop_pos_table)
lemma stop_pos_mono: "k \<le> i \<Longrightarrow> i \<le> 9 \<Longrightarrow> stop_pos k \<le> stop_pos i"
proof (induction i)
  case 0
  then show ?case by simp
next
  case (Suc i)
  show ?case
  proof (cases "k = Suc i")
    case True
    then show ?thesis by simp
  next
    case False
    with Suc have "stop_pos k \<le> stop_pos i" by simp
    moreover have "stop_pos i \<le> stop_pos (Suc i)"
      using stop_pos_step [of i] Suc.prems by simp
    ultimately show ?thesis by simp
  qed
qed

lemma stop_pos_range: "i \<le> 9 \<Longrightarrow> 0 \<le> stop_pos i \<and> stop_pos i \<le> 1"
  using stop_pos_mono [of 0 i] stop_pos_mono [of i 9] by (simp add: stop_pos_0 stop_pos_9)



subsection \<open>One channel on a segment\<close>






subsection \<open>The colormap on a segment\<close>




















section \<open>Edge segments\<close>

lemma nodeById_fold:
  "foldl (\<lambda>m n. m(node_id n \<mapsto> n)) m0 ns i =
     (case find (\<lambda>n. node_id n = i) (rev ns) of Some n \<Rightarrow> Some n | None \<Rightarrow> m0 i)"
  by (induction ns rule: rev_induct) simp_all

lemma nodeById_find: "nodeById ns i = find (\<lambda>n. node_id n = i) (rev ns)"
  by (simp add: nodeById_def nodeById_fold split: option.split)

lemma nodeById_dom: "nodeById ns i \<noteq> None \<longleftrightarrow> i \<in> node_id ` set ns"
  by (auto simp: nodeById_find find_None_iff)

lemma edge_segment_drawable:
  "edge_segment (nodeById ns) e =
     (if drawable ns e
      then Some \<lparr>x1 = x_KPCA (the (nodeById ns (source_id e))),
                 y1 = y_KPCA (the (nodeById ns (source_id e))),
                 x2 = x_KPCA (the (nodeById ns (target_id e))),
                 y2 = y_KPCA (the (nodeById ns (target_id e))),
                 w = lor (weight e) (Fin 0)\<rparr>
      else None)"
  by (simp add: edge_segment_def drawable_def split: option.split)

lemma edgeSegments_filter:
  "edgeSegments ns es =
     map (\<lambda>e. \<lparr>x1 = x_KPCA (the (nodeById ns (source_id e))),
               y1 = y_KPCA (the (nodeById ns (source_id e))),
               x2 = x_KPCA (the (nodeById ns (target_id e))),
               y2 = y_KPCA (the (nodeById ns (target_id e))),
               w = lor (weight e) (Fin 0)\<rparr>)
       (filter (drawable ns) es)"
  by (induction es) (simp_all add: edgeSegments_def List.map_filter_simps edge_segment_drawable)

lemma drawable_iff:
  "drawable ns e \<longleftrightarrow>
     (\<exists>a b. nodeById ns (source_id e) = Some a \<and> nodeById ns (target_id e) = Some b
        \<and> Number_isFinite (x_KPCA a) \<and> Number_isFinite (y_KPCA a)
        \<and> Number_isFinite (x_KPCA b) \<and> Number_isFinite (y_KPCA b))"
  by (auto simp: drawable_def split: option.splits)

text \<open>
  Claim C4.  The segment list holds one record \<open>{x1, y1, x2, y2, w}\<close>, in the order of the
  edge list, for exactly the drawable edges: those whose source id and target id both
  resolve to a node of the list (the last node of that id) with the four coordinates
  finite.  Every other edge gives no segment; the computation has no error result.
\<close>

theorem edge_segments_of_drawable_edges:
  "edgeSegments ns es =
     map (\<lambda>e. \<lparr>x1 = x_KPCA (the (nodeById ns (source_id e))),
               y1 = y_KPCA (the (nodeById ns (source_id e))),
               x2 = x_KPCA (the (nodeById ns (target_id e))),
               y2 = y_KPCA (the (nodeById ns (target_id e))),
               w = lor (weight e) (Fin 0)\<rparr>)
       (filter (drawable ns) es)
   \<and> edgeSegments ns (filter (\<lambda>e. \<not> drawable ns e) es) = []
   \<and> (drawable ns e \<longleftrightarrow>
        (\<exists>a b. nodeById ns (source_id e) = Some a \<and> nodeById ns (target_id e) = Some b
           \<and> Number_isFinite (x_KPCA a) \<and> Number_isFinite (y_KPCA a)
           \<and> Number_isFinite (x_KPCA b) \<and> Number_isFinite (y_KPCA b)))
   \<and> nodeById ns i = find (\<lambda>n. node_id n = i) (rev ns)
   \<and> ((\<exists>n. nodeById ns i = Some n) \<longleftrightarrow> i \<in> node_id ` set ns)"
proof -
  have "edgeSegments ns (filter (\<lambda>e. \<not> drawable ns e) es) = []"
    unfolding edgeSegments_filter by simp
  moreover have "(\<exists>n. nodeById ns i = Some n) \<longleftrightarrow> i \<in> node_id ` set ns"
    using nodeById_dom[of ns i] by auto
  ultimately show ?thesis
    using edgeSegments_filter[of ns es] drawable_iff[of ns e] nodeById_find[of ns i] by blast
qed

section \<open>The weight of an edge\<close>

lemma eNorm_row_weight: "weight (eNorm_row pr r) = ToNumber (qq (weight_cell r) (JNum (Fin 1)))"
  by (simp add: eNorm_row_def weight_cell_def Let_def)

lemma segment_weight:
  "g \<in> set (edgeSegments ns es) \<Longrightarrow> \<exists>e\<in>set es. w g = lor (weight e) (Fin 0)"
  unfolding edgeSegments_filter by auto

text \<open>
  Claim C2, as amended.  The weight of a parsed edge is 1 when its row has no weight cell
  (every weight column absent or \<^verbatim>\<open>null\<close>).  When the weight cell is a string, the weight is
  the number the string reads as, so \<^verbatim>\<open>NaN\<close> for a string that is no number; and every
  segment of an edge of weight \<^verbatim>\<open>NaN\<close> has the weight 0.
\<close>

theorem edge_weight_default:
  "(nullish (weight_cell r) \<longrightarrow> weight (eNorm_row pr r) = Fin 1)
   \<and> (weight_cell r = JStr s \<longrightarrow> weight (eNorm_row pr r) = StringToNumber s)
   \<and> (weight_cell r = JStr s \<and> StringToNumber s = NaN \<longrightarrow> weight (eNorm_row pr r) = NaN)
   \<and> (weight e = NaN \<longrightarrow> (\<forall>g\<in>set (edgeSegments ns [e]). w g = Fin 0))"
proof (intro conjI impI ballI)
  assume "nullish (weight_cell r)"
  then show "weight (eNorm_row pr r) = Fin 1"
    by (simp add: eNorm_row_weight qq_def)
next
  assume "weight_cell r = JStr s"
  then show "weight (eNorm_row pr r) = StringToNumber s"
    by (simp add: eNorm_row_weight qq_def)
next
  assume "weight_cell r = JStr s \<and> StringToNumber s = NaN"
  then show "weight (eNorm_row pr r) = NaN"
    by (simp add: eNorm_row_weight qq_def)
next
  fix g
  assume "weight e = NaN" and "g \<in> set (edgeSegments ns [e])"
  then show "w g = Fin 0"
    using segment_weight[of g ns "[e]"] by (simp add: lor_def)
qed

lemmas number_of_string =
  StringToNumber_def trim_def is_space_def parse_decimal_def parse_unsigned_decimal_def
  parse_exponent_def is_digit_def digits_val_def hexval_def all_digits_def scale10_def

lemma abc_is_no_number: "StringToNumber ''abc'' = NaN"
  by (simp add: number_of_string)

lemma edge_row_abc_norm:
  "eNorm_row pr edge_row_abc = \<lparr>source_id = ''A'', target_id = ''B'', weight = NaN\<rparr>"
  by (simp add: eNorm_row_def edge_row_abc_def row_of_def qq_def Let_def abc_is_no_number
      trim_def is_space_def)

lemma edge_row_plain_norm:
  "eNorm_row pr edge_row_plain = \<lparr>source_id = ''A'', target_id = ''B'', weight = Fin 1\<rparr>"
  by (simp add: eNorm_row_def edge_row_plain_def row_of_def qq_def Let_def trim_def is_space_def)

lemma two_nodes_segment:
  "edgeSegments two_nodes [\<lparr>source_id = ''A'', target_id = ''B'', weight = v\<rparr>]
     = [\<lparr>x1 = Fin 0, y1 = Fin 0, x2 = Fin 10, y2 = Fin 10, w = lor v (Fin 0)\<rparr>]"
  by (simp add: edgeSegments_def List.map_filter_simps edge_segment_def nodeById_def two_nodes_def
      example_node_def)

text \<open>C2 on a row without a weight and on a row whose weight is the string \<open>abc\<close>.\<close>

theorem edge_weight_default_witness:
  "nullish (weight_cell edge_row_plain)
   \<and> weight (eNorm_row print_integer edge_row_plain) = Fin 1
   \<and> weight_cell edge_row_abc = JStr ''abc'' \<and> StringToNumber ''abc'' = NaN
   \<and> weight (eNorm_row print_integer edge_row_abc) = NaN
   \<and> weight (eNorm_row print_integer edge_row_abc) = StringToNumber ''abc''
   \<and> set (map w (edgeSegments two_nodes [eNorm_row print_integer edge_row_abc])) = {Fin 0}"
proof -
  have p: "nullish (weight_cell edge_row_plain)"
    by (simp add: weight_cell_def edge_row_plain_def row_of_def qq_def)
  have a: "weight_cell edge_row_abc = JStr ''abc''"
    by (simp add: weight_cell_def edge_row_abc_def row_of_def qq_def)
  have n: "weight (eNorm_row print_integer edge_row_abc) = NaN"
    by (simp add: edge_row_abc_norm)
  have ne: "edgeSegments two_nodes [eNorm_row print_integer edge_row_abc] \<noteq> []"
    by (simp add: edge_row_abc_norm two_nodes_segment)
  note t1 = edge_weight_default[where r = edge_row_plain and pr = print_integer]
  note t2 = edge_weight_default[where r = edge_row_abc and pr = print_integer and s = "''abc''"
      and e = "eNorm_row print_integer edge_row_abc" and ns = two_nodes]
  have "\<forall>g\<in>set (edgeSegments two_nodes [eNorm_row print_integer edge_row_abc]). w g = Fin 0"
    using t2 n by blast
  then have "set (map w (edgeSegments two_nodes [eNorm_row print_integer edge_row_abc])) = {Fin 0}"
    using ne by (cases "edgeSegments two_nodes [eNorm_row print_integer edge_row_abc]") auto
  then show ?thesis
    using t1 t2 p a abc_is_no_number by blast
qed

text \<open>
  Claim C2 as stated fails on an edge row from \<open>A\<close> to \<open>B\<close> whose weight is the string \<open>abc\<close>:
  the weight of the parsed edge is \<^verbatim>\<open>NaN\<close> and the weight of its segment is 0, neither is 1.
\<close>

theorem non_numeric_weight_counterexample:
  "eNorm print_integer [edge_row_abc] = [\<lparr>source_id = ''A'', target_id = ''B'', weight = NaN\<rparr>]
   \<and> edgeSegments two_nodes (eNorm print_integer [edge_row_abc])
       = [\<lparr>x1 = Fin 0, y1 = Fin 0, x2 = Fin 10, y2 = Fin 10, w = Fin 0\<rparr>]
   \<and> NaN \<noteq> Fin 1 \<and> Fin 0 \<noteq> Fin 1"
  by (simp add: eNorm_def edge_row_abc_norm two_nodes_segment lor_def)

section \<open>The coordinate mapping on an extent of zero span\<close>

















section \<open>Cluster ellipses\<close>

lemma cluster_points_snoc:
  "cluster_points pr (ms @ [n]) k =
     cluster_points pr ms k
     @ (if Number_isFinite (x_KPCA n) \<and> Number_isFinite (y_KPCA n) \<and> cluster_key pr n = k
        then [node_point n] else [])"
  by (simp add: cluster_points_def finite_nodes_def)

lemma live_keys_snoc:
  "live_keys pr (ms @ [n]) =
     live_keys pr ms
     \<union> (if cluster_key pr n \<noteq> ''nan'' \<and> cluster_key pr n \<notin> set inherited_names
        then {cluster_key pr n} else {})"
  by (auto simp: live_keys_def)

lemma cluster_points_absent:
  assumes "c \<notin> live_keys pr ms" "c \<noteq> ''nan''" "c \<notin> set inherited_names"
  shows "cluster_points pr ms c = []"
proof -
  have "\<forall>n\<in>set ms. cluster_key pr n \<noteq> c"
    using assms by (auto simp: live_keys_def)
  then have "filter (\<lambda>n. cluster_key pr n = c) (finite_nodes ms) = []"
    by (auto simp: filter_empty_conv finite_nodes_def)
  then show ?thesis by (simp add: cluster_points_def)
qed

lemma push_point_keys: "map fst (push_point c p tab) = map fst tab"
  by (induction tab) (auto simp: push_point_def)

lemma push_point_mem:
  "(k, pts) \<in> set (push_point c p tab) \<longleftrightarrow>
     (k \<noteq> c \<and> (k, pts) \<in> set tab) \<or> (k = c \<and> (\<exists>q. (c, q) \<in> set tab \<and> pts = q @ [p]))"
  by (force simp: push_point_def image_iff split: if_splits)

text \<open>The table with the key of the next node added, before the point is pushed.\<close>

lemma tab_with_key:
  assumes ok: "tab_ok pr ms tab" and c: "c \<noteq> ''nan''" "c \<notin> set inherited_names"
  defines "tab1 \<equiv> (if c \<in> set (map fst tab) then tab else tab @ [(c, [])])"
  shows "distinct (map fst tab1)" and "set (map fst tab1) = insert c (live_keys pr ms)"
    and "\<forall>k pts. (k, pts) \<in> set tab1 \<longrightarrow> pts = cluster_points pr ms k"
proof -
  have d: "distinct (map fst tab)" and s: "set (map fst tab) = live_keys pr ms"
    and v: "\<forall>k pts. (k, pts) \<in> set tab \<longrightarrow> pts = cluster_points pr ms k"
    using ok by (simp_all add: tab_ok_def)
  show "distinct (map fst tab1)" using d by (simp add: tab1_def)
  show "set (map fst tab1) = insert c (live_keys pr ms)" using s by (auto simp: tab1_def)
  show "\<forall>k pts. (k, pts) \<in> set tab1 \<longrightarrow> pts = cluster_points pr ms k"
  proof (cases "c \<in> set (map fst tab)")
    case True
    then show ?thesis using v by (simp add: tab1_def)
  next
    case False
    then have "c \<notin> live_keys pr ms" using s by simp
    then have "cluster_points pr ms c = []" using c by (rule cluster_points_absent)
    then show ?thesis using v False by (auto simp: tab1_def)
  qed
qed

lemma byCluster_step_ok:
  assumes ok: "tab_ok pr ms tab"
    and safe: "Number_isFinite (x_KPCA n) \<and> Number_isFinite (y_KPCA n)
                 \<longrightarrow> cluster_key pr n \<notin> set inherited_names"
  shows "\<exists>tab'. byCluster_step pr tab n = Inr tab' \<and> tab_ok pr (ms @ [n]) tab'"
proof -
  define c where "c = cluster_key pr n"
  have cc: "ToString pr (qq (cluster n) (JStr ''nan'')) = c"
    by (simp add: c_def cluster_key_def)
  have d: "distinct (map fst tab)" and s: "set (map fst tab) = live_keys pr ms"
    and v: "\<forall>k pts. (k, pts) \<in> set tab \<longrightarrow> pts = cluster_points pr ms k"
    using ok by (simp_all add: tab_ok_def)
  have keys: "\<And>k pts. (k, pts) \<in> set tab \<Longrightarrow> k \<noteq> ''nan'' \<and> k \<notin> set inherited_names"
  proof -
    fix k pts assume "(k, pts) \<in> set tab"
    then have "k \<in> set (map fst tab)" by force
    then show "k \<noteq> ''nan'' \<and> k \<notin> set inherited_names"
      unfolding s by (simp add: live_keys_def)
  qed
  consider (nan) "c = ''nan''"
    | (inh) "c \<noteq> ''nan''" "c \<in> set inherited_names"
    | (key) "c \<noteq> ''nan''" "c \<notin> set inherited_names"
    by blast
  then show ?thesis
  proof cases
    case nan
    have st: "byCluster_step pr tab n = Inr tab"
      by (simp add: byCluster_step_def cc nan Let_def)
    have "tab_ok pr (ms @ [n]) tab"
      unfolding tab_ok_def
    proof (intro conjI allI impI)
      show "distinct (map fst tab)" by (rule d)
      show "set (map fst tab) = live_keys pr (ms @ [n])"
        using s nan by (simp add: live_keys_snoc c_def)
      fix k pts assume m: "(k, pts) \<in> set tab"
      then have "k \<noteq> c" using keys[OF m] nan by simp
      then show "pts = cluster_points pr (ms @ [n]) k"
        using v m by (simp add: cluster_points_snoc c_def)
    qed
    then show ?thesis using st by blast
  next
    case inh
    have nf: "\<not> (Number_isFinite (x_KPCA n) \<and> Number_isFinite (y_KPCA n))"
      using safe inh by (auto simp: c_def)
    have st: "byCluster_step pr tab n = Inr tab"
      using nf inh by (auto simp: byCluster_step_def cc Let_def)
    have "tab_ok pr (ms @ [n]) tab"
      unfolding tab_ok_def
    proof (intro conjI allI impI)
      show "distinct (map fst tab)" by (rule d)
      show "set (map fst tab) = live_keys pr (ms @ [n])"
        using s inh by (simp add: live_keys_snoc c_def)
      fix k pts assume m: "(k, pts) \<in> set tab"
      show "pts = cluster_points pr (ms @ [n]) k"
        using v m nf by (auto simp: cluster_points_snoc)
    qed
    then show ?thesis using st by blast
  next
    case key
    define tab1 where "tab1 = (if c \<in> set (map fst tab) then tab else tab @ [(c, [])])"
    note t1 = tab_with_key[OF ok key, folded tab1_def]
    have lk: "live_keys pr (ms @ [n]) = insert c (live_keys pr ms)"
      using key by (simp add: live_keys_snoc c_def)
    show ?thesis
    proof (cases "Number_isFinite (x_KPCA n) \<and> Number_isFinite (y_KPCA n)")
      case True
      have st: "byCluster_step pr tab n = Inr (push_point c \<lparr>px = x_KPCA n, py = y_KPCA n\<rparr> tab1)"
        using True key by (simp add: byCluster_step_def cc Let_def tab1_def)
      have "tab_ok pr (ms @ [n]) (push_point c \<lparr>px = x_KPCA n, py = y_KPCA n\<rparr> tab1)"
        unfolding tab_ok_def push_point_keys
      proof (intro conjI allI impI)
        show "distinct (map fst tab1)" by (rule t1(1))
        show "set (map fst tab1) = live_keys pr (ms @ [n])" using t1(2) lk by simp
        fix k pts
        assume "(k, pts) \<in> set (push_point c \<lparr>px = x_KPCA n, py = y_KPCA n\<rparr> tab1)"
        then consider "k \<noteq> c" "(k, pts) \<in> set tab1"
          | q where "k = c" "(c, q) \<in> set tab1" "pts = q @ [\<lparr>px = x_KPCA n, py = y_KPCA n\<rparr>]"
          unfolding push_point_mem by blast
        then show "pts = cluster_points pr (ms @ [n]) k"
        proof cases
          case 1
          then show ?thesis using t1(3) by (simp add: cluster_points_snoc c_def)
        next
          case 2
          then have "q = cluster_points pr ms c" using t1(3) by blast
          then show ?thesis
            using 2 True by (simp add: cluster_points_snoc c_def node_point_def)
        qed
      qed
      then show ?thesis using st by blast
    next
      case False
      have st: "byCluster_step pr tab n = Inr tab1"
        using False key by (auto simp: byCluster_step_def cc Let_def tab1_def)
      have "tab_ok pr (ms @ [n]) tab1"
        unfolding tab_ok_def
      proof (intro conjI allI impI)
        show "distinct (map fst tab1)" by (rule t1(1))
        show "set (map fst tab1) = live_keys pr (ms @ [n])" using t1(2) lk by simp
        fix k pts assume "(k, pts) \<in> set tab1"
        then show "pts = cluster_points pr (ms @ [n]) k"
          using t1(3) False by (auto simp: cluster_points_snoc)
      qed
      then show ?thesis using st by blast
    qed
  qed
qed

lemma byCluster_loop_ok:
  assumes "tab_ok pr ms tab"
    and "\<forall>n\<in>set ns. Number_isFinite (x_KPCA n) \<and> Number_isFinite (y_KPCA n)
           \<longrightarrow> cluster_key pr n \<notin> set inherited_names"
  shows "\<exists>tab'. byCluster_loop pr tab ns = Inr tab' \<and> tab_ok pr (ms @ ns) tab'"
  using assms
proof (induction ns arbitrary: ms tab)
  case Nil
  then show ?case by simp
next
  case (Cons n ns)
  from byCluster_step_ok[OF Cons.prems(1), of n] Cons.prems(2)
  obtain tab1 where t: "byCluster_step pr tab n = Inr tab1" "tab_ok pr (ms @ [n]) tab1"
    by auto
  from Cons.IH[OF t(2)] Cons.prems(2)
  obtain tab' where "byCluster_loop pr tab1 ns = Inr tab'" "tab_ok pr ((ms @ [n]) @ ns) tab'"
    by auto
  then show ?case using t(1) by simp
qed

lemma tab_ok_empty: "tab_ok pr [] []"
  by (simp add: tab_ok_def live_keys_def)

lemma Object_entries_set: "set (Object_entries tab) = set tab"
  by (auto simp: Object_entries_def)

lemma Object_entries_distinct:
  assumes "distinct (map fst tab)"
  shows "distinct (map fst (Object_entries tab))"
proof -
  have d: "distinct tab" and i: "inj_on fst (set tab)"
    using assms by (simp_all add: distinct_map)
  let ?A = "sort_key (\<lambda>(k, pts). digits_val 10 k) (filter (\<lambda>(k, pts). is_index_key k) tab)"
  let ?B = "filter (\<lambda>(k, pts). \<not> is_index_key k) tab"
  have "distinct (map fst ?A)"
    using d i by (auto simp: distinct_map intro: inj_on_subset)
  moreover have "distinct (map fst ?B)"
    using d i by (auto simp: distinct_map intro: inj_on_subset)
  moreover have "set (map fst ?A) \<inter> set (map fst ?B) = {}"
    by auto
  ultimately show ?thesis
    by (simp add: Object_entries_def)
qed

lemma ellipses_of_table:
  assumes "byCluster_loop pr [] ns = Inr tab"
  shows "ellipses pr True ns =
     Inr (map (\<lambda>(c, pts). \<lparr>cid = c, fit = covEllipse pts (Fin 2.5)\<rparr>)
            (filter (\<lambda>(c, pts). 2 < length pts) (Object_entries tab)))"
  using assms by (simp add: ellipses_def)

lemma cluster_points_member:
  assumes "cluster_points pr ns c \<noteq> []"
  shows "\<exists>n\<in>set (finite_nodes ns). cluster_key pr n = c"
proof -
  have "filter (\<lambda>n. cluster_key pr n = c) (finite_nodes ns) \<noteq> []"
    using assms by (auto simp: cluster_points_def)
  then show ?thesis by (auto simp: filter_empty_conv)
qed

text \<open>The ellipses of a node list none of whose placed nodes has an inherited name for its
  label.\<close>

lemma ellipses_ok:
  assumes safe: "list_all (\<lambda>n. cluster_key pr n \<notin> set inherited_names) (finite_nodes ns)"
  shows "\<exists>es. ellipses pr True ns = Inr es
           \<and> distinct (map cid es)
           \<and> set (map cid es) = {c. c \<noteq> ''nan'' \<and> 2 < length (cluster_points pr ns c)}
           \<and> (\<forall>e\<in>set es. fit e = covEllipse (cluster_points pr ns (cid e)) (Fin 2.5))"
proof -
  have s: "\<forall>n\<in>set ns. Number_isFinite (x_KPCA n) \<and> Number_isFinite (y_KPCA n)
             \<longrightarrow> cluster_key pr n \<notin> set inherited_names"
    using safe by (auto simp: list_all_iff finite_nodes_def)
  from byCluster_loop_ok[OF tab_ok_empty s]
  obtain tab where l: "byCluster_loop pr [] ns = Inr tab" and ok: "tab_ok pr ns tab"
    by auto
  have d: "distinct (map fst tab)" and k: "set (map fst tab) = live_keys pr ns"
    and v: "\<And>c pts. (c, pts) \<in> set tab \<Longrightarrow> pts = cluster_points pr ns c"
    using ok by (auto simp: tab_ok_def)
  define E where "E = filter (\<lambda>(c, pts). 2 < length pts) (Object_entries tab)"
  define es where "es = map (\<lambda>(c, pts). \<lparr>cid = c, fit = covEllipse pts (Fin 2.5)\<rparr>) E"
  have r: "ellipses pr True ns = Inr es"
    unfolding es_def E_def by (rule ellipses_of_table[OF l])
  have cids: "map cid es = map fst E"
    by (simp add: es_def case_prod_unfold comp_def)
  have dE: "distinct (map fst E)"
    unfolding E_def using Object_entries_distinct[OF d] by (rule distinct_map_filter)
  have mem: "\<And>c pts. (c, pts) \<in> set E \<longleftrightarrow> (c, pts) \<in> set tab \<and> 2 < length pts"
    by (auto simp: E_def Object_entries_set)
  have keys: "set (map fst E) = {c. c \<noteq> ''nan'' \<and> 2 < length (cluster_points pr ns c)}"
  proof (intro set_eqI iffI)
    fix c assume "c \<in> set (map fst E)"
    then obtain pts where m: "(c, pts) \<in> set tab" "2 < length pts"
      using mem by force
    then have "c \<in> live_keys pr ns" using k by force
    then have "c \<noteq> ''nan''" by (simp add: live_keys_def)
    then show "c \<in> {c. c \<noteq> ''nan'' \<and> 2 < length (cluster_points pr ns c)}"
      using v[OF m(1)] m(2) by simp
  next
    fix c assume "c \<in> {c. c \<noteq> ''nan'' \<and> 2 < length (cluster_points pr ns c)}"
    then have c: "c \<noteq> ''nan''" "2 < length (cluster_points pr ns c)" by simp_all
    then have "cluster_points pr ns c \<noteq> []" by auto
    from cluster_points_member[OF this]
    obtain n where n: "n \<in> set (finite_nodes ns)" "cluster_key pr n = c" by auto
    then have "c \<notin> set inherited_names"
      using safe by (auto simp: list_all_iff)
    moreover have "n \<in> set ns" using n(1) by (simp add: finite_nodes_def)
    ultimately have "c \<in> live_keys pr ns"
      using c(1) n(2) by (auto simp: live_keys_def)
    then obtain pts where m: "(c, pts) \<in> set tab" using k by force
    then have "(c, pts) \<in> set E" using mem v[OF m] c(2) by simp
    then show "c \<in> set (map fst E)" by force
  qed
  have fits: "\<forall>e\<in>set es. fit e = covEllipse (cluster_points pr ns (cid e)) (Fin 2.5)"
  proof
    fix e assume "e \<in> set es"
    then obtain c pts where e: "e = \<lparr>cid = c, fit = covEllipse pts (Fin 2.5)\<rparr>" "(c, pts) \<in> set E"
      by (auto simp: es_def)
    then have "pts = cluster_points pr ns c" using mem v by blast
    then show "fit e = covEllipse (cluster_points pr ns (cid e)) (Fin 2.5)"
      using e(1) by simp
  qed
  show ?thesis
    using r dE keys fits unfolding cids[symmetric] by blast
qed

subsection \<open>Labels that are no cluster\<close>

lemma nNorm_row_cluster:
  "cluster (nNorm_row pr r) =
     (case label_cell r of
        JStr s \<Rightarrow>
          (if trim s = [] \<or> toLowerCase (trim s) = ''nan'' \<or> toLowerCase (trim s) = ''none''
              \<or> toLowerCase (trim s) = ''null''
           then JNull else label_cell r)
      | _ \<Rightarrow> label_cell r)"
  unfolding nNorm_row_def Let_def label_cell_def[symmetric] by simp

lemma coalesce_defined: "vs \<noteq> [] \<Longrightarrow> last vs = JNull \<Longrightarrow> coalesce vs \<noteq> JUndefined"
  by (induction vs rule: coalesce.induct) (auto simp: qq_def)

lemma label_cell_defined: "label_cell r \<noteq> JUndefined"
  unfolding label_cell_def by (rule coalesce_defined) simp_all

lemma no_label_normalised: "no_label (label_cell r) \<Longrightarrow> cluster (nNorm_row pr r) = JNull"
  unfolding nNorm_row_cluster using label_cell_defined[of r]
  by (cases "label_cell r") (auto simp: no_label_def)

lemma null_cluster_key: "cluster n = JNull \<Longrightarrow> cluster_key pr n = ''nan''"
  by (simp add: cluster_key_def qq_def)

subsection \<open>Two nodes of one cluster, and one edge\<close>

lemma scenario_nodes:
  "nNorm pr [node_row_A, node_row_B] =
     [\<lparr>node_id = ''A'', x_KPCA = Fin 0, y_KPCA = Fin 0, cluster = JStr ''1'', columns = node_row_A\<rparr>,
      \<lparr>node_id = ''B'', x_KPCA = Fin 10, y_KPCA = Fin 10, cluster = JStr ''1'', columns = node_row_B\<rparr>]"
proof -
  have a: "nNorm_row pr node_row_A =
      \<lparr>node_id = ''A'', x_KPCA = Fin 0, y_KPCA = Fin 0, cluster = JStr ''1'', columns = node_row_A\<rparr>"
    unfolding nNorm_row_def Let_def
    by (simp add: node_row_A_def row_of_def qq_def trim_def is_space_def toLowerCase_def lower_char_def)
  have b: "nNorm_row pr node_row_B =
      \<lparr>node_id = ''B'', x_KPCA = Fin 10, y_KPCA = Fin 10, cluster = JStr ''1'', columns = node_row_B\<rparr>"
    unfolding nNorm_row_def Let_def
    by (simp add: node_row_B_def row_of_def qq_def trim_def is_space_def toLowerCase_def lower_char_def)
  show ?thesis by (simp add: nNorm_def a b)
qed

lemma scenario_edges:
  "eNorm pr [edge_row_AB] = [\<lparr>source_id = ''A'', target_id = ''B'', weight = Fin 2\<rparr>]"
  by (simp add: eNorm_def eNorm_row_def edge_row_AB_def row_of_def qq_def Let_def trim_def is_space_def)

lemma scenario_segments:
  "edgeSegments (nNorm pr [node_row_A, node_row_B]) (eNorm pr [edge_row_AB])
     = [\<lparr>x1 = Fin 0, y1 = Fin 0, x2 = Fin 10, y2 = Fin 10, w = Fin 2\<rparr>]"
  unfolding scenario_nodes scenario_edges
  by (simp add: edgeSegments_def List.map_filter_simps edge_segment_def nodeById_def)

lemma scenario_ellipses: "ellipses pr se (nNorm pr [node_row_A, node_row_B]) = Inr []"
proof (cases se)
  case False
  then show ?thesis by (simp add: ellipses_def)
next
  case True
  have "byCluster_loop pr [] (nNorm pr [node_row_A, node_row_B])
          = Inr [(''1'', [\<lparr>px = Fin 0, py = Fin 0\<rparr>, \<lparr>px = Fin 10, py = Fin 10\<rparr>])]"
    unfolding scenario_nodes
    by (simp add: byCluster_step_def qq_def inherited_names_def push_point_def Let_def)
  then show ?thesis
    using True by (simp add: ellipses_def Object_entries_def)
qed

text \<open>
  Claim C5, as amended.  With the ellipses shown, and for a node list none of whose placed
  nodes has for its label a property name that every object inherits, the ellipse list
  holds exactly one ellipse for each cluster label with more than 2 member points of
  finite position, fitted to these points at the scale 2.5; the label \<open>nan\<close>, which stands
  for no cluster, has none.  With the ellipses hidden the list is empty.  A row whose
  label cell is \<^verbatim>\<open>null\<close> or absent, empty, or reads \<open>nan\<close>, \<open>none\<close> or \<open>null\<close> in any case gives
  a node of no cluster.  The two nodes \<open>A\<close> and \<open>B\<close> of cluster \<open>1\<close> with one edge from \<open>A\<close> to
  \<open>B\<close> of weight 2 give exactly one edge segment and no ellipse.
\<close>

theorem cluster_ellipses:
  "(list_all (\<lambda>n. cluster_key pr n \<notin> set inherited_names) (finite_nodes ns) \<longrightarrow>
      (\<exists>es. ellipses pr True ns = Inr es
         \<and> distinct (map cid es)
         \<and> set (map cid es) = {c. c \<noteq> ''nan'' \<and> 2 < length (cluster_points pr ns c)}
         \<and> (\<forall>e\<in>set es. fit e = covEllipse (cluster_points pr ns (cid e)) (Fin 2.5))))
   \<and> ellipses pr False ns = Inr []
   \<and> (no_label (label_cell r) \<longrightarrow>
        cluster (nNorm_row pr r) = JNull \<and> cluster_key pr (nNorm_row pr r) = ''nan'')
   \<and> ellipses pr se (nNorm pr [node_row_A, node_row_B]) = Inr []
   \<and> edgeSegments (nNorm pr [node_row_A, node_row_B]) (eNorm pr [edge_row_AB])
       = [\<lparr>x1 = Fin 0, y1 = Fin 0, x2 = Fin 10, y2 = Fin 10, w = Fin 2\<rparr>]"
proof (intro conjI impI)
  assume "list_all (\<lambda>n. cluster_key pr n \<notin> set inherited_names) (finite_nodes ns)"
  then show "\<exists>es. ellipses pr True ns = Inr es
         \<and> distinct (map cid es)
         \<and> set (map cid es) = {c. c \<noteq> ''nan'' \<and> 2 < length (cluster_points pr ns c)}
         \<and> (\<forall>e\<in>set es. fit e = covEllipse (cluster_points pr ns (cid e)) (Fin 2.5))"
    by (rule ellipses_ok)
next
  show "ellipses pr False ns = Inr []"
    by (simp add: ellipses_def)
next
  assume n: "no_label (label_cell r)"
  show "cluster (nNorm_row pr r) = JNull"
    using n by (rule no_label_normalised)
  then show "cluster_key pr (nNorm_row pr r) = ''nan''"
    by (rule null_cluster_key)
next
  show "ellipses pr se (nNorm pr [node_row_A, node_row_B]) = Inr []"
    by (rule scenario_ellipses)
  show "edgeSegments (nNorm pr [node_row_A, node_row_B]) (eNorm pr [edge_row_AB])
       = [\<lparr>x1 = Fin 0, y1 = Fin 0, x2 = Fin 10, y2 = Fin 10, w = Fin 2\<rparr>]"
    by (rule scenario_segments)
qed

lemma triangle_finite:
  "finite_nodes triangle_nodes = triangle_nodes"
  by (simp add: finite_nodes_def triangle_nodes_def example_node_def)

lemma triangle_keys:
  "map (cluster_key pr) triangle_nodes = [''1'', ''1'', ''1'']"
  by (simp add: triangle_nodes_def example_node_def cluster_key_def qq_def)

lemma triangle_safe:
  "list_all (\<lambda>n. cluster_key pr n \<notin> set inherited_names) (finite_nodes triangle_nodes)"
proof -
  have "\<forall>k\<in>set (map (cluster_key pr) triangle_nodes). k \<notin> set inherited_names"
    unfolding triangle_keys by (simp add: inherited_names_def)
  then show ?thesis
    unfolding triangle_finite by (simp add: list_all_iff)
qed

lemma triangle_points:
  "length (cluster_points pr triangle_nodes c) = (if c = ''1'' then 3 else 0)"
proof -
  have "length (filter (\<lambda>n. cluster_key pr n = c) triangle_nodes)
          = length (filter (\<lambda>k. k = c) (map (cluster_key pr) triangle_nodes))"
    by (simp add: filter_map comp_def)
  also have "\<dots> = (if c = ''1'' then 3 else 0)"
    unfolding triangle_keys by simp
  finally show ?thesis
    by (simp add: cluster_points_def triangle_finite)
qed

text \<open>C5 on three nodes of cluster \<open>1\<close>, which get one ellipse, and on a row whose label is
  the string \<open>NaN\<close>.\<close>

theorem cluster_ellipses_witness:
  "list_all (\<lambda>n. cluster_key print_integer n \<notin> set inherited_names) (finite_nodes triangle_nodes)
   \<and> (\<exists>es. ellipses print_integer True triangle_nodes = Inr es \<and> set (map cid es) = {''1''}
          \<and> distinct (map cid es))
   \<and> no_label (label_cell (row_of [(''cluster'', JStr ''NaN'')]))
   \<and> cluster (nNorm_row print_integer (row_of [(''cluster'', JStr ''NaN'')])) = JNull"
proof -
  have n: "no_label (label_cell (row_of [(''cluster'', JStr ''NaN'')]))"
    by (simp add: no_label_def label_cell_def row_of_def qq_def trim_def is_space_def
        toLowerCase_def lower_char_def)
  have k: "{c. c \<noteq> ''nan'' \<and> 2 < length (cluster_points print_integer triangle_nodes c)} = {''1''}"
    by (auto simp: triangle_points)
  note t = cluster_ellipses[where pr = print_integer and ns = triangle_nodes
      and r = "row_of [(''cluster'', JStr ''NaN'')]"]
  show ?thesis
    using t triangle_safe[of print_integer] n unfolding k by blast
qed

text \<open>
  Claim C5 as stated fails with the ellipses switched off: three nodes of cluster \<open>1\<close> at
  \<open>(0, 0)\<close>, \<open>(2, 0)\<close> and \<open>(1, 3)\<close> are more than 2 member points of finite position, and the
  ellipse list is empty.
\<close>

theorem hidden_ellipses_counterexample:
  "ellipses print_integer False triangle_nodes = Inr []
   \<and> length (cluster_points print_integer triangle_nodes ''1'') = 3
   \<and> map (\<lambda>n. (cluster n, x_KPCA n, y_KPCA n)) triangle_nodes
       = [(JStr ''1'', Fin 0, Fin 0), (JStr ''1'', Fin 2, Fin 0), (JStr ''1'', Fin 1, Fin 3)]"
  by (simp add: ellipses_def triangle_points) (simp add: triangle_nodes_def example_node_def)

text \<open>Outside the amended claim: a placed node whose label is an inherited property name
  makes the computation of the ellipses throw.\<close>

lemma inherited_label_throws:
  "ellipses pr True [example_node ''A'' (Fin 0) (Fin 0) (JStr ''constructor'')] = Inl TypeError"
  by (simp add: ellipses_def byCluster_step_def example_node_def qq_def inherited_names_def Let_def)

end
